theory Spec2Isabelle
  imports Main "HOL-Library.Sublist"
begin

section \<open>The shared process worker: configurations, fingerprints, controllers\<close>

text \<open>
  A shallow embedding of \<^verbatim>\<open>sharedProcessWorkerService.ts\<close> (the configuration type and
  its \<^verbatim>\<open>hash\<close>), \<^verbatim>\<open>sharedProcessWorker.ts\<close> (the message kinds) and the worker main
  module with its two classes \<^verbatim>\<open>SharedProcessWorkerMain\<close> and
  \<^verbatim>\<open>SharedProcessWorkerProcess\<close>.

  JavaScript objects are mutable and are passed by reference, so objects live in explicit
  stores indexed by addresses. Everything the worker does to the outside (a
  \<^verbatim>\<open>postMessage\<close>, a \<^verbatim>\<open>fork\<close>, a \<^verbatim>\<open>kill\<close>, the global \<^verbatim>\<open>close()\<close>) is appended to a
  log of effects, in program order.
\<close>

subsection \<open>Message kinds (\<^verbatim>\<open>enum SharedProcessWorkerMessages\<close>)\<close>

definition RequestPort :: string where
  "RequestPort = ''vscode:shared-process-worker->shared-process=requestPort''"

definition ReceivePort :: string where
  "ReceivePort = ''vscode:shared-process->shared-process-worker=receivePort''"

definition WorkerReady :: string where
  "WorkerReady = ''vscode:shared-process-worker->shared-process=ready''"

definition WorkerTerminate :: string where
  "WorkerTerminate = ''vscode:shared-process->shared-process-worker=terminate''"

definition WorkerTrace :: string where
  "WorkerTrace = ''vscode:shared-process-worker->shared-process=trace''"

definition WorkerWarn :: string where
  "WorkerWarn = ''vscode:shared-process-worker->shared-process=warn''"

definition WorkerError :: string where
  "WorkerError = ''vscode:shared-process-worker->shared-process=error''"

subsection \<open>Configurations as objects in a store\<close>

type_synonym addr = nat

text \<open>\<^verbatim>\<open>interface ISharedProcessWorkerProcess { moduleId: string; type: string }\<close>\<close>

record ISharedProcessWorkerProcess =
  moduleId :: string
  type :: string

text \<open>
  The anonymous object type of \<^verbatim>\<open>reply\<close>. Window identifiers are whole numbers, so the
  \<^verbatim>\<open>number\<close> is an \<^typ>\<open>int\<close>.
\<close>

record reply_options =
  windowId :: int
  channel :: string
  nonce :: string

text \<open>
  \<^verbatim>\<open>interface ISharedProcessWorkerConfiguration { process: ...; reply: ... }\<close>: the two
  properties hold references to the nested objects, not the objects themselves.
\<close>

record ISharedProcessWorkerConfiguration =
  process :: addr
  reply :: addr

record object_store =
  configurations :: "addr \<Rightarrow> ISharedProcessWorkerConfiguration"
  process_objects :: "addr \<Rightarrow> ISharedProcessWorkerProcess"
  reply_objects :: "addr \<Rightarrow> reply_options"
  next_addr :: addr

text \<open>
  What a traversal of a configuration object sees: the nested objects its two references
  point to at the time of the traversal.
\<close>

record configuration_graph =
  process_of :: ISharedProcessWorkerProcess
  reply_of :: reply_options

definition deref :: "object_store \<Rightarrow> ISharedProcessWorkerConfiguration \<Rightarrow> configuration_graph" where
  "deref h c = \<lparr>process_of = process_objects h (process c), reply_of = reply_objects h (reply c)\<rparr>"

subsection \<open>The fingerprint: \<^verbatim>\<open>hash\<close>\<close>

text \<open>
  \<^verbatim>\<open>
  export function hash(configuration: ISharedProcessWorkerConfiguration): number {
      const configurationCopy: ISharedProcessWorkerConfiguration = { ...configuration };
      configurationCopy.reply.nonce = ''; // do not include in hash key
      return hashObject(configurationCopy);
  }
  \<close>
  The object spread copies the two properties of \<^verbatim>\<open>configuration\<close>, that is the two
  references: \<^verbatim>\<open>configurationCopy.reply\<close> is the very object \<^verbatim>\<open>configuration.reply\<close>.
  The copy itself never leaves the function, so it is a local value here and takes no
  address. The assignment writes into the store, at the address of the shared reply object.

  \<^verbatim>\<open>hashObject\<close> is imported from \<^verbatim>\<open>vs/base/common/hash\<close> and is a parameter of the
  model: any function of the object graph it is given. The result is the returned number
  together with the store as the call leaves it.
\<close>

definition hash ::
  "(configuration_graph \<Rightarrow> int) \<Rightarrow> object_store \<Rightarrow> addr \<Rightarrow> int \<times> object_store" where
  "hash hashObject h configuration =
     (let configurationCopy = configurations h configuration;
          r = reply configurationCopy;
          h' = h\<lparr>reply_objects := (reply_objects h)(r := (reply_objects h r)\<lparr>nonce := ''''\<rparr>)\<rparr>
      in (hashObject (deref h' configurationCopy), h'))"

text \<open>The value a caller reads of a configuration: its graph in the store.\<close>

definition read_configuration :: "object_store \<Rightarrow> addr \<Rightarrow> configuration_graph" where
  "read_configuration h configuration = deref h (configurations h configuration)"

text \<open>Two configurations that differ in nothing but \<^verbatim>\<open>reply.nonce\<close>.\<close>

definition differ_only_in_nonce :: "configuration_graph \<Rightarrow> configuration_graph \<Rightarrow> bool" where
  "differ_only_in_nonce a b \<longleftrightarrow>
     process_of a = process_of b \<and>
     windowId (reply_of a) = windowId (reply_of b) \<and>
     channel (reply_of a) = channel (reply_of b)"

text \<open>A store for examples: every address holds empty strings and zeros.\<close>

definition empty_store :: object_store where
  "empty_store =
     \<lparr>configurations = (\<lambda>_. \<lparr>process = 0, reply = 0\<rparr>),
      process_objects = (\<lambda>_. \<lparr>moduleId = '''', type = ''''\<rparr>),
      reply_objects = (\<lambda>_. \<lparr>windowId = 0, channel = '''', nonce = ''''\<rparr>),
      next_addr = 0\<rparr>"

text \<open>
  Receiving a message deserialises its configuration into fresh objects (structured
  clone): one new configuration object, one new process object, one new reply object.
\<close>

definition allocate :: "configuration_graph \<Rightarrow> object_store \<Rightarrow> addr \<times> object_store" where
  "allocate g h =
     (let a = next_addr h
      in (a, h\<lparr>configurations := (configurations h)(a := \<lparr>process = a, reply = a\<rparr>),
                process_objects := (process_objects h)(a := process_of g),
                reply_objects := (reply_objects h)(a := reply_of g),
                next_addr := Suc a\<rparr>))"

text \<open>The scenario configuration of the specification, with a chosen nonce.\<close>

definition scenario :: "string \<Rightarrow> configuration_graph" where
  "scenario n =
     \<lparr>process_of = \<lparr>moduleId = ''m1'', type = ''t1''\<rparr>,
      reply_of = \<lparr>windowId = 1, channel = ''c'', nonce = n\<rparr>\<rparr>"

text \<open>A store holding the scenario configuration twice, with nonces \<^verbatim>\<open>"a"\<close> and \<^verbatim>\<open>"b"\<close>.\<close>

definition two_configurations :: object_store where
  "two_configurations =
     snd (allocate (scenario ''b'') (snd (allocate (scenario ''a'') empty_store)))"

text \<open>A stand-in for \<^verbatim>\<open>hashObject\<close> in examples; it reads every field, the nonce too.\<close>

definition sample_hashObject :: "configuration_graph \<Rightarrow> int" where
  "sample_hashObject g =
     int (length (moduleId (process_of g))) + 3 * int (length (type (process_of g)))
     + 5 * windowId (reply_of g) + 7 * int (length (channel (reply_of g)))
     + 11 * int (length (nonce (reply_of g)))"

subsection \<open>Effects on the outside\<close>

text \<open>
  A \<^verbatim>\<open>VSBuffer\<close> is a sequence of bytes. Ports (\<^verbatim>\<open>MessagePort\<close>) and child processes
  (\<^verbatim>\<open>ChildProcess\<close>) are objects of the platform; they are known by their identity.
\<close>

type_synonym VSBuffer = "char list"

datatype effect =
    PostMessage string "string option"
      \<comment> \<open>\<^verbatim>\<open>postMessage({ id, message })\<close> to the owner of the worker\<close>
  | Fork string "string list" string nat
      \<comment> \<open>\<^verbatim>\<open>fork(bootstrapPath, args, { env })\<close>: path, arguments, the
          \<^verbatim>\<open>VSCODE_AMD_ENTRYPOINT\<close> of the environment, and the child it returned\<close>
  | Kill nat
      \<comment> \<open>\<^verbatim>\<open>child.kill()\<close>\<close>
  | Close
      \<comment> \<open>the global \<^verbatim>\<open>close()\<close> of the worker scope\<close>
  | ChildSend nat VSBuffer
      \<comment> \<open>\<^verbatim>\<open>child.send(...)\<close> of the base64 text of the buffer\<close>
  | PortPostMessage nat string
      \<comment> \<open>\<^verbatim>\<open>port.postMessage(...)\<close> of the buffer decoded from the base64 text\<close>
  | ConsoleLog string
      \<comment> \<open>\<^verbatim>\<open>log(msg, `SharedProcess worker`)\<close>\<close>

subsection \<open>The two classes as records\<close>

text \<open>\<^verbatim>\<open>interface ISharedProcessWorkerEnvironment { bootstrapPath: string }\<close>\<close>

record ISharedProcessWorkerEnvironment =
  bootstrapPath :: string

text \<open>
  \<^verbatim>\<open>class SharedProcessWorkerProcess\<close>: the three constructor parameters and the two
  private fields, \<^verbatim>\<open>child\<close> (\<^verbatim>\<open>undefined\<close> until \<^verbatim>\<open>fork\<close> has returned) and
  \<^verbatim>\<open>isDisposed\<close>.
\<close>

record SharedProcessWorkerProcess =
  port :: nat
  configuration :: addr
  environment :: ISharedProcessWorkerEnvironment
  child :: "nat option"
  isDisposed :: bool

text \<open>
  \<^verbatim>\<open>class SharedProcessWorkerMain\<close>: the map from fingerprints to controllers. The
  values of the map are references, so the controllers live in a store of their own
  (addresses below \<open>next_controller\<close> are in use), where the callbacks of a controller that
  has left the map still find it. The state of the worker scope is kept beside it: the
  configuration objects received so far, the number of children forked so far, whether
  \<^verbatim>\<open>close()\<close> has been called, and the log of effects.
\<close>

record SharedProcessWorkerMain =
  store :: object_store
  mapConfigurationToProcess :: "int \<rightharpoonup> nat"
  controllers :: "nat \<Rightarrow> SharedProcessWorkerProcess"
  next_controller :: nat
  next_child :: nat
  closing :: bool
  effects :: "effect list"

text \<open>\<^verbatim>\<open>interface ISharedProcessToWorkerMessage\<close>, and what may come in the transfer list.\<close>

record ISharedProcessToWorkerMessage =
  message_id :: string
  message_configuration :: addr
  message_environment :: "ISharedProcessWorkerEnvironment option"

datatype transferable = MessagePort nat | OtherTransferable

subsection \<open>\<^verbatim>\<open>namespace Logger\<close> and the globals of the worker scope\<close>

definition postMessage :: "string \<Rightarrow> string option \<Rightarrow> SharedProcessWorkerMain \<Rightarrow> SharedProcessWorkerMain" where
  "postMessage i m s = s\<lparr>effects := effects s @ [PostMessage i m]\<rparr>"

definition Logger_error :: "string \<Rightarrow> SharedProcessWorkerMain \<Rightarrow> SharedProcessWorkerMain" where
  "Logger_error m = postMessage WorkerError (Some m)"

definition Logger_warn :: "string \<Rightarrow> SharedProcessWorkerMain \<Rightarrow> SharedProcessWorkerMain" where
  "Logger_warn m = postMessage WorkerWarn (Some m)"

definition Logger_trace :: "string \<Rightarrow> SharedProcessWorkerMain \<Rightarrow> SharedProcessWorkerMain" where
  "Logger_trace m = postMessage WorkerTrace (Some m)"

definition close :: "SharedProcessWorkerMain \<Rightarrow> SharedProcessWorkerMain" where
  "close s = s\<lparr>closing := True, effects := effects s @ [Close]\<rparr>"

subsection \<open>\<^verbatim>\<open>SharedProcessWorkerProcess\<close>: dispose and spawn\<close>

text \<open>
  \<^verbatim>\<open>
  override dispose(): void {
      super.dispose();
      this.isDisposed = true;
      this.child?.kill();
  }
  \<close>
  The class registers nothing with its base class \<^verbatim>\<open>Disposable\<close>, so \<^verbatim>\<open>super.dispose()\<close>
  has nothing to release. \<open>p\<close> is the address of \<^verbatim>\<open>this\<close>.
\<close>

definition dispose :: "nat \<Rightarrow> SharedProcessWorkerMain \<Rightarrow> SharedProcessWorkerMain" where
  "dispose p s =
     (let s1 = s\<lparr>controllers := (controllers s)(p := (controllers s p)\<lparr>isDisposed := True\<rparr>)\<rparr>
      in case child (controllers s1 p) of
           None \<Rightarrow> s1
         | Some c \<Rightarrow> s1\<lparr>effects := effects s1 @ [Kill c]\<rparr>)"

text \<open>
  How the call of \<^verbatim>\<open>fork\<close> ends is up to the platform: it returns a new child process, or
  it throws. A thrown value is known by the text \<^verbatim>\<open>toErrorMessage\<close> makes of it.
\<close>

datatype fork_result = ForkReturns | ForkThrows string

datatype completion = Returned | Thrown string

text \<open>
  \<^verbatim>\<open>spawn()\<close>, up to the call of \<^verbatim>\<open>fork\<close>; what follows the call registers the four
  callbacks below on the child and on the port and has no effect of its own. Of the
  environment of the child, the variable taken from the configuration is recorded.
\<close>

definition spawn :: "fork_result \<Rightarrow> nat \<Rightarrow> SharedProcessWorkerMain \<Rightarrow> completion \<times> SharedProcessWorkerMain" where
  "spawn fr p s =
     (let s1 = Logger_trace ''Forking worker process'' s;
          this = controllers s1 p;
          pr = process_objects (store s1) (process (configurations (store s1) (configuration this)))
      in case fr of
           ForkThrows e \<Rightarrow> (Thrown e, s1)
         | ForkReturns \<Rightarrow>
             (let c = next_child s1;
                  s2 = s1\<lparr>next_child := Suc c,
                          effects := effects s1 @
                            [Fork (bootstrapPath (environment this)) [''--type='' @ type pr] (moduleId pr) c]\<rparr>
              in (Returned, s2\<lparr>controllers := (controllers s2)(p := this\<lparr>child := Some c\<rparr>)\<rparr>)))"

subsection \<open>The callbacks that \<^verbatim>\<open>spawn\<close> registers\<close>

text \<open>Template literals print a number in decimal and \<^verbatim>\<open>null\<close> as \<^verbatim>\<open>null\<close>.\<close>

fun show_nat :: "nat \<Rightarrow> string" where
  "show_nat n =
     (if n < 10 then [''0123456789'' ! n]
      else show_nat (n div 10) @ [''0123456789'' ! (n mod 10)])"

declare show_nat.simps [simp del]

definition show_int :: "int \<Rightarrow> string" where
  "show_int i = (if i < 0 then ''-'' @ show_nat (nat (- i)) else show_nat (nat i))"

definition show_code :: "int option \<Rightarrow> string" where
  "show_code code = (case code of None \<Rightarrow> ''null'' | Some i \<Rightarrow> show_int i)"

definition show_signal :: "string option \<Rightarrow> string" where
  "show_signal signal = (case signal of None \<Rightarrow> ''null'' | Some g \<Rightarrow> g)"

text \<open>
  \<^verbatim>\<open>this.child.on('error', error => Logger.warn(`Error from child process: ${toErrorMessage(error)}`));\<close>
\<close>

definition on_error :: "nat \<Rightarrow> string \<Rightarrow> SharedProcessWorkerMain \<Rightarrow> SharedProcessWorkerMain" where
  "on_error p error s = Logger_warn (''Error from child process: '' @ error) s"

text \<open>
  \<^verbatim>\<open>
  this.child.on('exit', (code, signal) => {
      if (this.isDisposed) { return; }
      if (code !== 0 && signal !== 'SIGTERM') {
          Logger.error(`Child process crashed with exit code ${code} and signal ${signal}`);
      }
  });
  \<close>
  \<^verbatim>\<open>code\<close> is a number or \<^verbatim>\<open>null\<close>, \<^verbatim>\<open>signal\<close> a signal name or \<^verbatim>\<open>null\<close>.
\<close>

definition on_exit :: "nat \<Rightarrow> int option \<Rightarrow> string option \<Rightarrow> SharedProcessWorkerMain \<Rightarrow> SharedProcessWorkerMain" where
  "on_exit p code signal s =
     (if isDisposed (controllers s p) then s
      else if code \<noteq> Some 0 \<and> signal \<noteq> Some ''SIGTERM'' then
        Logger_error (''Child process crashed with exit code '' @ show_code code
                      @ '' and signal '' @ show_signal signal) s
      else s)"

text \<open>
  \<^verbatim>\<open>
  onRawMessage(msg => {
      if (this.isDisposed) { return; }
      if (isRemoteConsoleLog(msg)) { log(msg, `SharedProcess worker`); }
      else { onMessageEmitter.fire(VSBuffer.wrap(Buffer.from(msg, 'base64'))); }
  });
  onMessage(message => this.port.postMessage(message.buffer));
  \<close>
  \<^verbatim>\<open>isRemoteConsoleLog\<close> is imported from \<^verbatim>\<open>vs/base/common/console\<close> and is a parameter.
  The only listener of the emitter posts the buffer on the port.
\<close>

definition onRawMessage :: "(string \<Rightarrow> bool) \<Rightarrow> nat \<Rightarrow> string \<Rightarrow> SharedProcessWorkerMain \<Rightarrow> SharedProcessWorkerMain" where
  "onRawMessage isRemoteConsoleLog p msg s =
     (if isDisposed (controllers s p) then s
      else if isRemoteConsoleLog msg then s\<lparr>effects := effects s @ [ConsoleLog msg]\<rparr>
      else s\<lparr>effects := effects s @ [PortPostMessage (port (controllers s p)) msg]\<rparr>)"

text \<open>
  \<^verbatim>\<open>
  const send = (buffer: VSBuffer) => {
      if (this.isDisposed) { return; }
      if (this.child?.connected) { this.child.send((<Buffer>buffer.buffer).toString('base64')); }
      else { Logger.warn('Unable to deliver message to disconnected child'); }
  };
  this.port.onmessage = (e => send(VSBuffer.wrap(e.data)));
  \<close>
  Whether a child is connected is a fact of the platform at the time of the call:
  \<open>connected\<close> tells it for every child. No statement of the body throws, so the result is
  the state alone.
\<close>

definition send :: "(nat \<Rightarrow> bool) \<Rightarrow> nat \<Rightarrow> VSBuffer \<Rightarrow> SharedProcessWorkerMain \<Rightarrow> SharedProcessWorkerMain" where
  "send connected p buffer s =
     (if isDisposed (controllers s p) then s
      else case child (controllers s p) of
             Some c \<Rightarrow>
               if connected c then s\<lparr>effects := effects s @ [ChildSend c buffer]\<rparr>
               else Logger_warn ''Unable to deliver message to disconnected child'' s
           | None \<Rightarrow> Logger_warn ''Unable to deliver message to disconnected child'' s)"

subsection \<open>\<^verbatim>\<open>SharedProcessWorkerMain\<close>: terminate, onReceivePort, notifyMessage\<close>

text \<open>
  \<^verbatim>\<open>
  private terminate(configuration: ISharedProcessWorkerConfiguration): void {
      const configurationHash = hash(configuration);
      const process = this.mapConfigurationToProcess.get(configurationHash);
      if (process) {
          Logger.trace('Terminating worker process');
          process.dispose();
          this.mapConfigurationToProcess.delete(configurationHash);
          close();
      }
  }
  \<close>
\<close>

definition terminate :: "(configuration_graph \<Rightarrow> int) \<Rightarrow> addr \<Rightarrow> SharedProcessWorkerMain \<Rightarrow> SharedProcessWorkerMain" where
  "terminate hashObject cfg s =
     (let (configurationHash, h) = hash hashObject (store s) cfg;
          s1 = s\<lparr>store := h\<rparr>
      in case mapConfigurationToProcess s1 configurationHash of
           None \<Rightarrow> s1
         | Some p \<Rightarrow>
             (let s2 = Logger_trace ''Terminating worker process'' s1;
                  s3 = dispose p s2;
                  s4 = s3\<lparr>mapConfigurationToProcess := (mapConfigurationToProcess s3)(configurationHash := None)\<rparr>
              in close s4))"

definition onTerminate :: "(configuration_graph \<Rightarrow> int) \<Rightarrow> addr \<Rightarrow> SharedProcessWorkerMain \<Rightarrow> SharedProcessWorkerMain" where
  "onTerminate hashObject cfg s = terminate hashObject cfg s"

text \<open>
  The statements of the \<^verbatim>\<open>try\<close> block of \<^verbatim>\<open>onReceivePort\<close> that follow the call of
  \<^verbatim>\<open>terminate\<close>, and the \<^verbatim>\<open>catch\<close> clause:
  \<^verbatim>\<open>
      const process = new SharedProcessWorkerProcess(port, configuration, environment);
      process.spawn();
      this.mapConfigurationToProcess.set(hash(configuration), process);
      Logger.trace('Worker is ready');
      postMessage({ id: SharedProcessWorkerMessages.WorkerReady });
  } catch (error) {
      Logger.error(`Unexpected error forking worker process: ${toErrorMessage(error)}`);
  }
  \<close>
\<close>

definition spawn_and_remember ::
  "(configuration_graph \<Rightarrow> int) \<Rightarrow> fork_result \<Rightarrow> nat \<Rightarrow> addr \<Rightarrow> ISharedProcessWorkerEnvironment
     \<Rightarrow> SharedProcessWorkerMain \<Rightarrow> SharedProcessWorkerMain" where
  "spawn_and_remember hashObject fr prt cfg env s =
     (let p = next_controller s;
          s1 = s\<lparr>controllers := (controllers s)
                    (p := \<lparr>port = prt, configuration = cfg, environment = env,
                           child = None, isDisposed = False\<rparr>),
                  next_controller := Suc p\<rparr>;
          (outcome, s2) = spawn fr p s1
      in case outcome of
           Thrown error \<Rightarrow> Logger_error (''Unexpected error forking worker process: '' @ error) s2
         | Returned \<Rightarrow>
             (let (k, h) = hash hashObject (store s2) cfg;
                  s3 = s2\<lparr>store := h, mapConfigurationToProcess := (mapConfigurationToProcess s2)(k \<mapsto> p)\<rparr>;
                  s4 = Logger_trace ''Worker is ready'' s3
              in postMessage WorkerReady None s4))"

text \<open>
  \<^verbatim>\<open>
  private onReceivePort(port, configuration, environment): void {
      Logger.trace('Received the message port and configuration');
      try {
          // Ensure to terminate any existing process for config
          this.terminate(configuration);
          ...
  \<close>
\<close>

definition onReceivePort ::
  "(configuration_graph \<Rightarrow> int) \<Rightarrow> fork_result \<Rightarrow> nat \<Rightarrow> addr \<Rightarrow> ISharedProcessWorkerEnvironment
     \<Rightarrow> SharedProcessWorkerMain \<Rightarrow> SharedProcessWorkerMain" where
  "onReceivePort hashObject fr prt cfg env s =
     spawn_and_remember hashObject fr prt cfg env
       (terminate hashObject cfg
         (Logger_trace ''Received the message port and configuration'' s))"

text \<open>
  \<^verbatim>\<open>
  notifyMessage(message: ISharedProcessToWorkerMessage, transfer: Transferable[]): void {
      switch (message.id) {
          case SharedProcessWorkerMessages.ReceivePort:
              if (transfer[0] instanceof MessagePort && message.environment) {
                  this.onReceivePort(transfer[0], message.configuration, message.environment);
              }
              break;
          case SharedProcessWorkerMessages.WorkerTerminate:
              this.onTerminate(message.configuration);
              break;
          default:
              Logger.warn(`Unexpected message '${message}'`);
      }
  }
  \<close>
  \<open>first_port\<close> is \<^verbatim>\<open>transfer[0]\<close> when it is a \<^verbatim>\<open>MessagePort\<close>. An environment is an
  object, which is truthy whenever it is there. The message is an object too, and the
  template literal prints an object as \<^verbatim>\<open>[object Object]\<close>.
\<close>

fun first_port :: "transferable list \<Rightarrow> nat option" where
  "first_port (MessagePort prt # _) = Some prt"
| "first_port _ = None"

definition unexpected_message :: string where
  "unexpected_message = ''Unexpected message '' @ [CHR 0x27] @ ''[object Object]'' @ [CHR 0x27]"

definition notifyMessage ::
  "(configuration_graph \<Rightarrow> int) \<Rightarrow> fork_result \<Rightarrow> ISharedProcessToWorkerMessage \<Rightarrow> transferable list
     \<Rightarrow> SharedProcessWorkerMain \<Rightarrow> SharedProcessWorkerMain" where
  "notifyMessage hashObject fr message transfer s =
     (if message_id message = ReceivePort then
        (case first_port transfer of
           Some prt \<Rightarrow>
             (case message_environment message of
                Some env \<Rightarrow> onReceivePort hashObject fr prt (message_configuration message) env s
              | None \<Rightarrow> s)
         | None \<Rightarrow> s)
      else if message_id message = WorkerTerminate then
        onTerminate hashObject (message_configuration message) s
      else Logger_warn unexpected_message s)"

text \<open>
  \<^verbatim>\<open>create()\<close> constructs the main object, whose constructor asks for the port:
  \<^verbatim>\<open>postMessage({ id: SharedProcessWorkerMessages.RequestPort })\<close>.
\<close>

definition create :: SharedProcessWorkerMain where
  "create =
     \<lparr>store = empty_store,
      mapConfigurationToProcess = Map.empty,
      controllers = (\<lambda>_. \<lparr>port = 0, configuration = 0, environment = \<lparr>bootstrapPath = ''''\<rparr>,
                           child = None, isDisposed = False\<rparr>),
      next_controller = 0,
      next_child = 0,
      closing = False,
      effects = [PostMessage RequestPort None]\<rparr>"

subsection \<open>The reactor\<close>

text \<open>
  The worker is driven by events, one at a time: a control message from the owner, or one
  of the four callbacks of a controller. A control message arrives as a structured clone,
  so its configuration is allocated afresh; the event also says how \<^verbatim>\<open>fork\<close> will end
  should the handler call it. Callbacks exist for a controller once \<^verbatim>\<open>spawn\<close> has got
  its child. A port message carries whether the child is connected at that time.
\<close>

datatype event =
    Inbound string configuration_graph "ISharedProcessWorkerEnvironment option" "transferable list" fork_result
  | ChildError nat string
  | ChildExit nat "int option" "string option"
  | ChildMessage nat string
  | PortMessage nat VSBuffer bool

definition has_callbacks :: "SharedProcessWorkerMain \<Rightarrow> nat \<Rightarrow> bool" where
  "has_callbacks s p \<longleftrightarrow> p < next_controller s \<and> child (controllers s p) \<noteq> None"

fun step ::
  "(configuration_graph \<Rightarrow> int) \<Rightarrow> (string \<Rightarrow> bool) \<Rightarrow> SharedProcessWorkerMain \<Rightarrow> event
     \<Rightarrow> SharedProcessWorkerMain" where
  "step H L s (Inbound i g env transfer fr) =
     (let (a, h) = allocate g (store s)
      in notifyMessage H fr
           \<lparr>message_id = i, message_configuration = a, message_environment = env\<rparr>
           transfer (s\<lparr>store := h\<rparr>))"
| "step H L s (ChildError p e) = (if has_callbacks s p then on_error p e s else s)"
| "step H L s (ChildExit p code signal) = (if has_callbacks s p then on_exit p code signal s else s)"
| "step H L s (ChildMessage p msg) = (if has_callbacks s p then onRawMessage L p msg s else s)"
| "step H L s (PortMessage p buffer conn) = (if has_callbacks s p then send (\<lambda>_. conn) p buffer s else s)"

fun run ::
  "(configuration_graph \<Rightarrow> int) \<Rightarrow> (string \<Rightarrow> bool) \<Rightarrow> SharedProcessWorkerMain \<Rightarrow> event list
     \<Rightarrow> SharedProcessWorkerMain" where
  "run H L s [] = s"
| "run H L s (e # es) = run H L (step H L s e) es"

text \<open>What a handler appended to the log, and whether an effect is a message of a kind.\<close>

definition emitted :: "SharedProcessWorkerMain \<Rightarrow> SharedProcessWorkerMain \<Rightarrow> effect list" where
  "emitted s s' = drop (length (effects s)) (effects s')"

fun posted :: "string \<Rightarrow> effect \<Rightarrow> bool" where
  "posted k (PostMessage i m) = (i = k)"
| "posted k _ = False"

subsection \<open>Live controllers and their fingerprints\<close>

text \<open>
  A controller is live when it exists, \<^verbatim>\<open>fork\<close> has given it a child, and it has not been
  disposed. Its fingerprint is what \<^verbatim>\<open>hash\<close> returns for the configuration it holds.
\<close>

definition live :: "SharedProcessWorkerMain \<Rightarrow> nat \<Rightarrow> bool" where
  "live s p \<longleftrightarrow> p < next_controller s \<and> child (controllers s p) \<noteq> None \<and> \<not> isDisposed (controllers s p)"

definition fingerprint_of :: "(configuration_graph \<Rightarrow> int) \<Rightarrow> SharedProcessWorkerMain \<Rightarrow> nat \<Rightarrow> int" where
  "fingerprint_of H s p = fst (hash H (store s) (configuration (controllers s p)))"

text \<open>
  The fingerprint of the configuration a control message carries, and the state in which
  \<^verbatim>\<open>onReceivePort\<close> finds itself when its call of \<^verbatim>\<open>terminate\<close> has returned, for a
  handoff of the configuration \<open>g\<close> that arrives in state \<open>s\<close>.
\<close>

definition message_fingerprint :: "(configuration_graph \<Rightarrow> int) \<Rightarrow> configuration_graph \<Rightarrow> int" where
  "message_fingerprint H g = H (g\<lparr>reply_of := (reply_of g)\<lparr>nonce := ''''\<rparr>\<rparr>)"

definition after_terminate ::
  "(configuration_graph \<Rightarrow> int) \<Rightarrow> configuration_graph \<Rightarrow> SharedProcessWorkerMain \<Rightarrow> SharedProcessWorkerMain" where
  "after_terminate H g s =
     terminate H (next_addr (store s))
       (Logger_trace ''Received the message port and configuration''
         (s\<lparr>store := snd (allocate g (store s))\<rparr>))"

text \<open>
  What holds between the map, the controllers and the store whenever a handler is entered:
  the references of the store stay below its allocation mark, an entry of the map is a
  live controller filed under its own fingerprint, and a live controller is in the map.
\<close>

definition store_ok :: "object_store \<Rightarrow> bool" where
  "store_ok h \<longleftrightarrow>
     (\<forall>a < next_addr h. process (configurations h a) < next_addr h \<and> reply (configurations h a) < next_addr h)"

definition consistent :: "(configuration_graph \<Rightarrow> int) \<Rightarrow> SharedProcessWorkerMain \<Rightarrow> bool" where
  "consistent H s \<longleftrightarrow>
     store_ok (store s)
     \<and> (\<forall>p < next_controller s. configuration (controllers s p) < next_addr (store s))
     \<and> (\<forall>k p. mapConfigurationToProcess s k = Some p \<longrightarrow> live s p \<and> fingerprint_of H s p = k)
     \<and> (\<forall>p. live s p \<longrightarrow> mapConfigurationToProcess s (fingerprint_of H s p) = Some p)
     \<and> (\<forall>p < next_controller s. \<forall>c. child (controllers s p) = Some c \<longrightarrow> c < next_child s)"

text \<open>
  What it means for a string to be the decimal numeral of a number, said without the
  printer: the digits read back to the number, and there is no leading zero; a negative
  number has a minus sign in front of the numeral of its magnitude.
\<close>

definition digit_value :: "char \<Rightarrow> nat" where
  "digit_value d = length (takeWhile (\<lambda>x. x \<noteq> d) ''0123456789'')"

definition decimal_value :: "string \<Rightarrow> nat" where
  "decimal_value ds = foldl (\<lambda>a d. 10 * a + digit_value d) 0 ds"

definition numeral_of :: "nat \<Rightarrow> string \<Rightarrow> bool" where
  "numeral_of n ds \<longleftrightarrow>
     ds \<noteq> [] \<and> list_all (\<lambda>d. d \<in> set ''0123456789'') ds
     \<and> (ds = ''0'' \<or> hd ds \<noteq> CHR ''0'') \<and> decimal_value ds = n"

definition decimal_of :: "int \<Rightarrow> string \<Rightarrow> bool" where
  "decimal_of i ds \<longleftrightarrow>
     (if i < 0 then ds \<noteq> [] \<and> hd ds = CHR ''-'' \<and> numeral_of (nat (- i)) (tl ds)
      else numeral_of (nat i) ds)"

subsection \<open>Sample states\<close>

text \<open>
  States the worker reaches in the scenarios of the specification, with
  \<^term>\<open>sample_hashObject\<close> for \<^verbatim>\<open>hashObject\<close>: after one handoff; after a Terminate message
  for the same worker; after a second handoff for another window; after a Terminate message
  for a worker that was never created.
\<close>

definition sample_environment :: ISharedProcessWorkerEnvironment where
  "sample_environment = \<lparr>bootstrapPath = ''/out/bootstrap-fork.js''\<rparr>"

definition handoff :: "string \<Rightarrow> event" where
  "handoff n = Inbound ReceivePort (scenario n) (Some sample_environment) [MessagePort 7] ForkReturns"

definition one_worker :: SharedProcessWorkerMain where
  "one_worker = step sample_hashObject (\<lambda>_. False) create (handoff ''a'')"

definition terminated_worker :: SharedProcessWorkerMain where
  "terminated_worker =
     step sample_hashObject (\<lambda>_. False) one_worker (Inbound WorkerTerminate (scenario ''b'') None [] ForkReturns)"

definition other_scenario :: configuration_graph where
  "other_scenario =
     \<lparr>process_of = \<lparr>moduleId = ''m1'', type = ''t1''\<rparr>,
      reply_of = \<lparr>windowId = 2, channel = ''c'', nonce = ''c''\<rparr>\<rparr>"

definition two_workers :: SharedProcessWorkerMain where
  "two_workers =
     step sample_hashObject (\<lambda>_. False) one_worker
       (Inbound ReceivePort other_scenario (Some sample_environment) [MessagePort 8] ForkReturns)"

definition terminate_other :: SharedProcessWorkerMain where
  "terminate_other =
     step sample_hashObject (\<lambda>_. False) one_worker (Inbound WorkerTerminate other_scenario None [] ForkReturns)"

section \<open>Properties of the fingerprint\<close>

lemmas message_kinds =
  RequestPort_def ReceivePort_def WorkerReady_def WorkerTerminate_def
  WorkerTrace_def WorkerWarn_def WorkerError_def

lemma hash_value:
  "fst (hash H h c) = H ((read_configuration h c)\<lparr>reply_of := (reply_of (read_configuration h c))\<lparr>nonce := ''''\<rparr>\<rparr>)"
  by (simp add: hash_def Let_def read_configuration_def deref_def)

lemma hash_store:
  "snd (hash H h c) =
     h\<lparr>reply_objects := (reply_objects h)
         (reply (configurations h c) := (reply_objects h (reply (configurations h c)))\<lparr>nonce := ''''\<rparr>)\<rparr>"
  by (simp add: hash_def Let_def)

lemma read_configuration_after_hash:
  "(read_configuration (snd (hash H h c)) c')\<lparr>reply_of := (reply_of (read_configuration (snd (hash H h c)) c'))\<lparr>nonce := ''''\<rparr>\<rparr>
   = (read_configuration h c')\<lparr>reply_of := (reply_of (read_configuration h c'))\<lparr>nonce := ''''\<rparr>\<rparr>"
  by (simp add: hash_store read_configuration_def deref_def)

lemma hash_value_after_hash: "fst (hash H (snd (hash H h c)) c') = fst (hash H h c')"
  by (simp only: hash_value read_configuration_after_hash)

text \<open>
  C4. Two configurations that differ only in \<^verbatim>\<open>reply.nonce\<close> have the same fingerprint:
  \<^verbatim>\<open>hash\<close> returns the same number for both, whether both calls start from the same
  store or the second call runs in the store the first one left behind.
\<close>

theorem hash_ignores_nonce:
  assumes "differ_only_in_nonce (read_configuration h c1) (read_configuration h c2)"
  shows "fst (hash H h c1) = fst (hash H h c2)
       \<and> fst (hash H (snd (hash H h c1)) c2) = fst (hash H h c1)"
proof -
  let ?z = "\<lambda>g. g\<lparr>reply_of := (reply_of g)\<lparr>nonce := ''''\<rparr>\<rparr>"
  have "?z (read_configuration h c1) = ?z (read_configuration h c2)"
    using assms by (simp add: differ_only_in_nonce_def)
  then have same: "fst (hash H h c1) = fst (hash H h c2)"
    by (simp only: hash_value)
  then show ?thesis
    by (simp only: hash_value_after_hash simp_thms)
qed

theorem hash_ignores_nonce_witness:
  "differ_only_in_nonce (read_configuration two_configurations 0) (read_configuration two_configurations 1)
   \<and> nonce (reply_of (read_configuration two_configurations 0)) = ''a''
   \<and> nonce (reply_of (read_configuration two_configurations 1)) = ''b''
   \<and> fst (hash sample_hashObject two_configurations 0) = fst (hash sample_hashObject two_configurations 1)
   \<and> fst (hash sample_hashObject (snd (hash sample_hashObject two_configurations 0)) 1) = 20"
proof -
  have d: "differ_only_in_nonce (read_configuration two_configurations 0) (read_configuration two_configurations 1)"
    by (simp add: two_configurations_def allocate_def empty_store_def scenario_def Let_def
        differ_only_in_nonce_def read_configuration_def deref_def)
  have n: "nonce (reply_of (read_configuration two_configurations 0)) = ''a''
         \<and> nonce (reply_of (read_configuration two_configurations 1)) = ''b''"
    by (simp add: two_configurations_def allocate_def empty_store_def scenario_def Let_def
        read_configuration_def deref_def)
  have v: "fst (hash sample_hashObject two_configurations 0) = 20"
    by (simp add: two_configurations_def allocate_def empty_store_def scenario_def Let_def
        hash_def deref_def sample_hashObject_def)
  show ?thesis
    using hash_ignores_nonce [OF d, of sample_hashObject] d n v by simp
qed

text \<open>
  C5, at the scenario configuration with nonce \<^verbatim>\<open>"a"\<close> (address 0 of
  \<^term>\<open>two_configurations\<close>): the caller's configuration is not what it was once
  \<^verbatim>\<open>hash\<close> has returned; its \<^verbatim>\<open>reply.nonce\<close> has become the empty string. The
  configuration is not left unchanged, whatever \<^verbatim>\<open>hashObject\<close> is.
\<close>

theorem hash_overwrites_nonce:
  "nonce (reply_of (read_configuration two_configurations 0)) = ''a''
   \<and> nonce (reply_of (read_configuration (snd (hash H two_configurations 0)) 0)) = []
   \<and> read_configuration (snd (hash H two_configurations 0)) 0 \<noteq> read_configuration two_configurations 0"
proof -
  have before: "nonce (reply_of (read_configuration two_configurations 0)) = ''a''"
    by (simp add: two_configurations_def allocate_def empty_store_def scenario_def Let_def
        read_configuration_def deref_def)
  have after: "nonce (reply_of (read_configuration (snd (hash H two_configurations 0)) 0)) = []"
    by (simp add: hash_store read_configuration_def deref_def)
  from before after show ?thesis by auto
qed

section \<open>The handlers, field by field\<close>

lemma hash_next_addr: "next_addr (snd (hash H h c)) = next_addr h"
  by (simp add: hash_store)

lemma store_ok_hash: "store_ok (snd (hash H h c)) = store_ok h"
  by (simp add: store_ok_def hash_store)

lemma allocate_fst: "fst (allocate g h) = next_addr h"
  by (simp add: allocate_def Let_def)

lemma allocate_next_addr: "next_addr (snd (allocate g h)) = Suc (next_addr h)"
  by (simp add: allocate_def Let_def)

lemma store_ok_allocate: "store_ok h \<Longrightarrow> store_ok (snd (allocate g h))"
  by (auto simp: store_ok_def allocate_def Let_def less_Suc_eq)

lemma read_configuration_allocate:
  assumes "store_ok h" and "c < next_addr h"
  shows "read_configuration (snd (allocate g h)) c = read_configuration h c"
proof -
  from assms have "process (configurations h c) < next_addr h" and "reply (configurations h c) < next_addr h"
    by (simp_all add: store_ok_def)
  with assms(2) show ?thesis
    by (simp add: allocate_def Let_def read_configuration_def deref_def)
qed

lemma hash_after_allocate:
  "store_ok h \<Longrightarrow> c < next_addr h \<Longrightarrow> fst (hash H (snd (allocate g h)) c) = fst (hash H h c)"
  by (simp only: hash_value read_configuration_allocate)

lemma hash_of_allocated:
  "fst (hash H (snd (allocate g h)) (next_addr h)) = H (g\<lparr>reply_of := (reply_of g)\<lparr>nonce := ''''\<rparr>\<rparr>)"
  by (cases g) (simp add: hash_value read_configuration_def deref_def allocate_def Let_def)

lemma postMessage_simps:
  "store (postMessage i m s) = store s"
  "mapConfigurationToProcess (postMessage i m s) = mapConfigurationToProcess s"
  "controllers (postMessage i m s) = controllers s"
  "next_controller (postMessage i m s) = next_controller s"
  "next_child (postMessage i m s) = next_child s"
  "closing (postMessage i m s) = closing s"
  "effects (postMessage i m s) = effects s @ [PostMessage i m]"
  by (simp_all add: postMessage_def)

lemma terminate_absent:
  "mapConfigurationToProcess s (fst (hash H (store s) cfg)) = None
   \<Longrightarrow> terminate H cfg s = s\<lparr>store := snd (hash H (store s) cfg)\<rparr>"
  by (simp add: terminate_def split_def Let_def)

lemma terminate_present:
  "mapConfigurationToProcess s (fst (hash H (store s) cfg)) = Some p
   \<Longrightarrow> terminate H cfg s =
       s\<lparr>store := snd (hash H (store s) cfg),
         mapConfigurationToProcess := (mapConfigurationToProcess s)(fst (hash H (store s) cfg) := None),
         controllers := (controllers s)(p := (controllers s p)\<lparr>isDisposed := True\<rparr>),
         closing := True,
         effects := effects s @ PostMessage WorkerTrace (Some ''Terminating worker process'')
                      # (case child (controllers s p) of None \<Rightarrow> [] | Some c \<Rightarrow> [Kill c]) @ [Close]\<rparr>"
  by (simp add: terminate_def split_def Let_def dispose_def close_def Logger_trace_def postMessage_def
      split: option.splits)

lemma terminate_fields:
  "store (terminate H cfg s) = snd (hash H (store s) cfg)"
  "mapConfigurationToProcess (terminate H cfg s) = (mapConfigurationToProcess s)(fst (hash H (store s) cfg) := None)"
  "next_controller (terminate H cfg s) = next_controller s"
  "next_child (terminate H cfg s) = next_child s"
  by (cases "mapConfigurationToProcess s (fst (hash H (store s) cfg))";
      simp add: terminate_absent terminate_present fun_upd_idem)+

lemma spawn_and_remember_throws:
  "spawn_and_remember H (ForkThrows e) prt cfg env s =
     s\<lparr>controllers := (controllers s)
          (next_controller s := \<lparr>port = prt, configuration = cfg, environment = env,
                                 child = None, isDisposed = False\<rparr>),
       next_controller := Suc (next_controller s),
       effects := effects s @
         [PostMessage WorkerTrace (Some ''Forking worker process''),
          PostMessage WorkerError (Some (''Unexpected error forking worker process: '' @ e))]\<rparr>"
  by (simp add: spawn_and_remember_def spawn_def Let_def Logger_trace_def Logger_error_def postMessage_def)

lemma spawn_and_remember_returns:
  "spawn_and_remember H ForkReturns prt cfg env s =
     s\<lparr>store := snd (hash H (store s) cfg),
       mapConfigurationToProcess := (mapConfigurationToProcess s)(fst (hash H (store s) cfg) \<mapsto> next_controller s),
       controllers := (controllers s)
          (next_controller s := \<lparr>port = prt, configuration = cfg, environment = env,
                                 child = Some (next_child s), isDisposed = False\<rparr>),
       next_controller := Suc (next_controller s),
       next_child := Suc (next_child s),
       effects := effects s @
         [PostMessage WorkerTrace (Some ''Forking worker process''),
          Fork (bootstrapPath env)
               [''--type='' @ type (process_objects (store s) (process (configurations (store s) cfg)))]
               (moduleId (process_objects (store s) (process (configurations (store s) cfg))))
               (next_child s),
          PostMessage WorkerTrace (Some ''Worker is ready''),
          PostMessage WorkerReady None]\<rparr>"
  by (simp add: spawn_and_remember_def spawn_def Let_def split_def Logger_trace_def postMessage_def)

lemma spawn_and_remember_effects:
  "prefix (effects s) (effects (spawn_and_remember H fr prt cfg env s))"
  by (cases fr) (simp_all add: spawn_and_remember_throws spawn_and_remember_returns)

lemma spawn_and_remember_closing:
  "closing (spawn_and_remember H fr prt cfg env s) = closing s"
  by (cases fr) (simp_all add: spawn_and_remember_throws spawn_and_remember_returns)

lemma emitted_append: "effects s' = effects s @ es \<Longrightarrow> emitted s s' = es"
  by (simp add: emitted_def)

lemma kinds_distinct:
  "WorkerTrace \<noteq> WorkerError" "WorkerTrace \<noteq> WorkerReady" "WorkerTrace \<noteq> WorkerWarn"
  "WorkerError \<noteq> WorkerReady" "WorkerError \<noteq> WorkerWarn" "WorkerReady \<noteq> WorkerWarn"
  "ReceivePort \<noteq> WorkerTerminate" "RequestPort \<noteq> ReceivePort" "RequestPort \<noteq> WorkerTerminate"
  by (simp_all add: message_kinds)

lemma onReceivePort_throws_effects:
  "effects (onReceivePort H (ForkThrows e) prt cfg env s) =
     effects s
     @ PostMessage WorkerTrace (Some ''Received the message port and configuration'')
     # (case mapConfigurationToProcess s (fst (hash H (store s) cfg)) of
          None \<Rightarrow> []
        | Some p \<Rightarrow>
            PostMessage WorkerTrace (Some ''Terminating worker process'')
            # (case child (controllers s p) of None \<Rightarrow> [] | Some c \<Rightarrow> [Kill c]) @ [Close])
     @ [PostMessage WorkerTrace (Some ''Forking worker process''),
        PostMessage WorkerError (Some (''Unexpected error forking worker process: '' @ e))]"
proof (cases "mapConfigurationToProcess s (fst (hash H (store s) cfg))")
  case None
  then show ?thesis
    by (simp add: onReceivePort_def spawn_and_remember_throws terminate_absent
        Logger_trace_def postMessage_simps)
next
  case (Some p)
  then show ?thesis
    by (simp add: onReceivePort_def spawn_and_remember_throws terminate_present
        Logger_trace_def postMessage_simps)
qed

lemma onReceivePort_throws_map:
  "mapConfigurationToProcess (onReceivePort H (ForkThrows e) prt cfg env s) =
     (mapConfigurationToProcess s)(fst (hash H (store s) cfg) := None)"
proof (cases "mapConfigurationToProcess s (fst (hash H (store s) cfg))")
  case None
  then have "(mapConfigurationToProcess s)(fst (hash H (store s) cfg) := None) = mapConfigurationToProcess s"
    by (simp add: fun_upd_idem)
  with None show ?thesis
    by (simp add: onReceivePort_def spawn_and_remember_throws terminate_absent
        Logger_trace_def postMessage_simps)
next
  case (Some p)
  then show ?thesis
    by (simp add: onReceivePort_def spawn_and_remember_throws terminate_present
        Logger_trace_def postMessage_simps)
qed

lemma onReceivePort_store:
  "store (onReceivePort H fr prt cfg env s) = snd (hash H (store s) cfg)"
proof -
  have idem: "snd (hash H (snd (hash H h cfg)) cfg) = snd (hash H h cfg)" for h
    by (simp add: hash_store)
  show ?thesis
    by (cases "mapConfigurationToProcess s (fst (hash H (store s) cfg))"; cases fr)
       (simp_all add: onReceivePort_def spawn_and_remember_throws spawn_and_remember_returns
          terminate_absent terminate_present Logger_trace_def postMessage_simps idem)
qed

section \<open>The sample states, evaluated\<close>

lemmas evaluation =
  handoff_def create_def allocate_def empty_store_def scenario_def
  notifyMessage_def onReceivePort_def onTerminate_def Logger_trace_def Logger_warn_def Logger_error_def
  postMessage_def terminate_def dispose_def close_def hash_def deref_def sample_hashObject_def Let_def
  spawn_and_remember_def spawn_def sample_environment_def message_kinds

lemma one_worker_controller:
  "controllers one_worker 0 =
     \<lparr>port = 7, configuration = 0, environment = sample_environment, child = Some 0, isDisposed = False\<rparr>"
  by (simp add: one_worker_def evaluation)

lemma one_worker_map: "mapConfigurationToProcess one_worker = [20 \<mapsto> 0]"
  by (simp add: one_worker_def evaluation)

lemma one_worker_effects:
  "effects one_worker =
     [PostMessage RequestPort None,
      PostMessage WorkerTrace (Some ''Received the message port and configuration''),
      PostMessage WorkerTrace (Some ''Forking worker process''),
      Fork ''/out/bootstrap-fork.js'' [''--type=t1''] ''m1'' 0,
      PostMessage WorkerTrace (Some ''Worker is ready''),
      PostMessage WorkerReady None]"
  by (simp add: one_worker_def evaluation)

lemma one_worker_counters: "next_controller one_worker = 1" "next_child one_worker = 1"
  "next_addr (store one_worker) = 1" "closing one_worker = False"
  by (simp_all add: one_worker_def evaluation)

lemma run_one_worker: "run sample_hashObject (\<lambda>_. False) create [handoff ''a''] = one_worker"
  by (simp add: one_worker_def)

lemma terminated_worker_controller:
  "controllers terminated_worker 0 =
     \<lparr>port = 7, configuration = 0, environment = sample_environment, child = Some 0, isDisposed = True\<rparr>"
  by (simp add: terminated_worker_def one_worker_def evaluation)

lemma terminated_worker_effects:
  "effects terminated_worker =
     effects one_worker @
     [PostMessage WorkerTrace (Some ''Terminating worker process''), Kill 0, Close]"
  by (simp add: terminated_worker_def one_worker_def evaluation)

lemma terminated_worker_map: "mapConfigurationToProcess terminated_worker = Map.empty"
  by (simp add: terminated_worker_def one_worker_def evaluation)

lemma two_workers_map: "mapConfigurationToProcess two_workers = [20 \<mapsto> 0, 25 \<mapsto> 1]"
  by (simp add: two_workers_def one_worker_def other_scenario_def evaluation)

lemma two_workers_key: "fst (hash sample_hashObject (store two_workers) 0) = 20"
  by (simp add: two_workers_def one_worker_def other_scenario_def evaluation)

lemma two_workers_controller:
  "controllers two_workers 0 =
     \<lparr>port = 7, configuration = 0, environment = sample_environment, child = Some 0, isDisposed = False\<rparr>"
  by (simp add: two_workers_def one_worker_def other_scenario_def evaluation)

lemma two_workers_closing: "closing two_workers = False"
  by (simp add: two_workers_def one_worker_def other_scenario_def evaluation)

lemma show_one: "show_code (Some 1) = ''1''"
  by (simp add: show_code_def show_int_def show_nat.simps)

section \<open>A handoff whose fork fails\<close>

text \<open>
  C2. A handoff whose \<^verbatim>\<open>fork\<close> throws: the handler returns normally (the error does
  not leave \<^verbatim>\<open>onReceivePort\<close>), exactly one Error message is among the messages it
  emits, no WorkerReady message is, and the map has no entry at the fingerprint of the
  configuration afterwards; the other entries of the map are as before.
\<close>

theorem spawn_failure_leaves_slot_empty:
  "(let s' = notifyMessage H (ForkThrows e)
               \<lparr>message_id = ReceivePort, message_configuration = cfg, message_environment = Some env\<rparr>
               (MessagePort prt # transfer) s
    in effects s' = effects s @ emitted s s'
     \<and> filter (posted WorkerError) (emitted s s')
         = [PostMessage WorkerError (Some (''Unexpected error forking worker process: '' @ e))]
     \<and> filter (posted WorkerReady) (emitted s s') = []
     \<and> mapConfigurationToProcess s' = (mapConfigurationToProcess s)(fst (hash H (store s) cfg) := None)
     \<and> mapConfigurationToProcess s' (fst (hash H (store s') cfg)) = None)"
proof -
  let ?s' = "onReceivePort H (ForkThrows e) prt cfg env s"
  have n: "notifyMessage H (ForkThrows e)
               \<lparr>message_id = ReceivePort, message_configuration = cfg, message_environment = Some env\<rparr>
               (MessagePort prt # transfer) s = ?s'"
    by (simp add: notifyMessage_def)
  have e1: "effects ?s' = effects s @ emitted s ?s'"
    by (simp add: emitted_def onReceivePort_throws_effects)
  have e2: "filter (posted WorkerError) (emitted s ?s')
         = [PostMessage WorkerError (Some (''Unexpected error forking worker process: '' @ e))]"
    by (simp add: emitted_def onReceivePort_throws_effects kinds_distinct split: option.splits)
  have e3: "filter (posted WorkerReady) (emitted s ?s') = []"
    by (simp add: emitted_def onReceivePort_throws_effects kinds_distinct split: option.splits)
  have m: "mapConfigurationToProcess ?s' (fst (hash H (store ?s') cfg)) = None"
    by (simp add: onReceivePort_throws_map onReceivePort_store hash_value_after_hash)
  show ?thesis
    unfolding Let_def n using e1 e2 e3 m onReceivePort_throws_map by simp
qed

section \<open>The callbacks of a controller\<close>

text \<open>The printer of numbers prints decimal numerals.\<close>

lemma digit_nth:
  assumes "k < 10"
  shows "digit_value (''0123456789'' ! k) = k"
    and "''0123456789'' ! k \<in> set ''0123456789''"
    and "''0123456789'' ! k = CHR ''0'' \<longleftrightarrow> k = 0"
proof -
  from assms have k: "k = 0 \<or> k = 1 \<or> k = 2 \<or> k = 3 \<or> k = 4 \<or> k = 5 \<or> k = 6 \<or> k = 7 \<or> k = 8 \<or> k = 9"
    by arith
  from k show "digit_value (''0123456789'' ! k) = k"
    by (elim disjE) (simp_all add: digit_value_def)
  from k show "''0123456789'' ! k \<in> set ''0123456789''"
    by (elim disjE) simp_all
  from k show "''0123456789'' ! k = CHR ''0'' \<longleftrightarrow> k = 0"
    by (elim disjE) simp_all
qed

lemma decimal_value_snoc: "decimal_value (ds @ [d]) = 10 * decimal_value ds + digit_value d"
  by (simp add: decimal_value_def)

lemma numeral_of_show_nat: "numeral_of n (show_nat n)"
proof (induction n rule: show_nat.induct)
  case (1 n)
  show ?case
  proof (cases "n < 10")
    case True
    then have s: "show_nat n = [''0123456789'' ! n]"
      by (subst show_nat.simps) simp
    have "decimal_value [''0123456789'' ! n] = n"
      using digit_nth(1) [OF True] by (simp add: decimal_value_def)
    moreover have "[''0123456789'' ! n] = ''0'' \<or> hd [''0123456789'' ! n] \<noteq> CHR ''0''"
      using digit_nth(3) [OF True] by (cases "n = 0") simp_all
    ultimately show ?thesis
      unfolding s numeral_of_def using digit_nth(2) [OF True] by simp
  next
    case False
    let ?xs = "show_nat (n div 10)"
    let ?d = "''0123456789'' ! (n mod 10)"
    from False have s: "show_nat n = ?xs @ [?d]"
      by (subst show_nat.simps) simp
    have m: "n mod 10 < 10" by simp
    from "1.IH" [OF False] have ih: "?xs \<noteq> []" "list_all (\<lambda>d. d \<in> set ''0123456789'') ?xs"
      "?xs = ''0'' \<or> hd ?xs \<noteq> CHR ''0''" "decimal_value ?xs = n div 10"
      by (simp_all add: numeral_of_def)
    have "?xs \<noteq> ''0''"
    proof
      assume "?xs = ''0''"
      then have "decimal_value ?xs = 0"
        by (simp add: decimal_value_def digit_value_def)
      with ih(4) False show False by simp
    qed
    with ih(3) have "hd ?xs \<noteq> CHR ''0''" by simp
    with ih(1) have hd: "hd (?xs @ [?d]) \<noteq> CHR ''0''" by simp
    have val: "decimal_value (?xs @ [?d]) = n"
      using ih(4) digit_nth(1) [OF m] by (simp add: decimal_value_snoc)
    have all: "list_all (\<lambda>d. d \<in> set ''0123456789'') (?xs @ [?d])"
      using ih(2) digit_nth(2) [OF m] by simp
    show ?thesis
      unfolding s numeral_of_def using hd val all by simp
  qed
qed

lemma decimal_of_show_int: "decimal_of i (show_int i)"
  by (simp add: decimal_of_def show_int_def numeral_of_show_nat)

lemma sublist_middle: "sublist c (a @ c @ b)"
  unfolding sublist_def by blast

lemma sublist_last: "sublist g (a @ g)"
  unfolding sublist_def by (metis append_Nil2)

lemma on_exit_crash:
  assumes "\<not> isDisposed (controllers s p)" and "code \<noteq> Some 0" and "signal \<noteq> Some ''SIGTERM''"
  shows "on_exit p code signal s =
           s\<lparr>effects := effects s @
               [PostMessage WorkerError
                  (Some (''Child process crashed with exit code '' @ show_code code
                         @ '' and signal '' @ show_signal signal))]\<rparr>"
  using assms by (simp add: on_exit_def Logger_error_def postMessage_def)

lemma show_code_139: "show_code (Some 139) = ''139''"
  by (simp add: show_code_def show_int_def show_nat.simps)

text \<open>
  C6. An exit of the child seen by a controller that is not disposed: when the code is not
  0 and the signal is not \<^verbatim>\<open>SIGTERM\<close>, the handler emits exactly one Error message. Its
  text is \<^verbatim>\<open>Child process crashed with exit code c and signal g\<close>, where \<open>c\<close> is the
  decimal numeral of the code (\<^verbatim>\<open>null\<close> when there is no code) and \<open>g\<close> is the name of
  the signal itself (\<^verbatim>\<open>null\<close> when there is no signal); both are contained in the text.
  When the code is 0 or the signal is \<^verbatim>\<open>SIGTERM\<close>, it emits nothing. An exit seen by a
  disposed controller is ignored. In no case does anything but the log change.
\<close>

theorem exit_reporting:
  "(\<not> isDisposed (controllers s p) \<and> code \<noteq> Some 0 \<and> signal \<noteq> Some ''SIGTERM'' \<longrightarrow>
      (\<exists>c g. (case code of None \<Rightarrow> c = ''null'' | Some i \<Rightarrow> decimal_of i c)
           \<and> (case signal of None \<Rightarrow> g = ''null'' | Some n \<Rightarrow> g = n)
           \<and> on_exit p code signal s =
               s\<lparr>effects := effects s @
                 [PostMessage WorkerError
                    (Some (''Child process crashed with exit code '' @ c @ '' and signal '' @ g))]\<rparr>
           \<and> emitted s (on_exit p code signal s) =
                 [PostMessage WorkerError
                    (Some (''Child process crashed with exit code '' @ c @ '' and signal '' @ g))]
           \<and> sublist c (''Child process crashed with exit code '' @ c @ '' and signal '' @ g)
           \<and> sublist g (''Child process crashed with exit code '' @ c @ '' and signal '' @ g)))
   \<and> (\<not> isDisposed (controllers s p) \<and> (code = Some 0 \<or> signal = Some ''SIGTERM'') \<longrightarrow>
      on_exit p code signal s = s \<and> emitted s (on_exit p code signal s) = [])
   \<and> (isDisposed (controllers s p) \<longrightarrow>
      on_exit p code signal s = s \<and> emitted s (on_exit p code signal s) = [])"
proof (intro conjI impI)
  assume crash: "\<not> isDisposed (controllers s p) \<and> code \<noteq> Some 0 \<and> signal \<noteq> Some ''SIGTERM''"
  let ?c = "show_code code" and ?g = "show_signal signal"
  let ?text = "''Child process crashed with exit code '' @ ?c @ '' and signal '' @ ?g"
  have c: "case code of None \<Rightarrow> ?c = ''null'' | Some i \<Rightarrow> decimal_of i ?c"
    by (simp add: show_code_def decimal_of_show_int split: option.split)
  have g: "case signal of None \<Rightarrow> ?g = ''null'' | Some n \<Rightarrow> ?g = n"
    by (simp add: show_signal_def split: option.split)
  have e: "on_exit p code signal s = s\<lparr>effects := effects s @ [PostMessage WorkerError (Some ?text)]\<rparr>"
    using crash by (simp add: on_exit_crash)
  then have m: "emitted s (on_exit p code signal s) = [PostMessage WorkerError (Some ?text)]"
    by (simp add: emitted_def)
  have sc: "sublist ?c ?text"
    by (rule sublist_middle)
  have sg: "sublist ?g ?text"
    using sublist_last [of ?g "''Child process crashed with exit code '' @ ?c @ '' and signal ''"]
    by (simp only: append_assoc)
  from c g e m sc sg
  show "\<exists>c g. (case code of None \<Rightarrow> c = ''null'' | Some i \<Rightarrow> decimal_of i c)
           \<and> (case signal of None \<Rightarrow> g = ''null'' | Some n \<Rightarrow> g = n)
           \<and> on_exit p code signal s =
               s\<lparr>effects := effects s @
                 [PostMessage WorkerError
                    (Some (''Child process crashed with exit code '' @ c @ '' and signal '' @ g))]\<rparr>
           \<and> emitted s (on_exit p code signal s) =
                 [PostMessage WorkerError
                    (Some (''Child process crashed with exit code '' @ c @ '' and signal '' @ g))]
           \<and> sublist c (''Child process crashed with exit code '' @ c @ '' and signal '' @ g)
           \<and> sublist g (''Child process crashed with exit code '' @ c @ '' and signal '' @ g)"
    by blast
next
  assume "\<not> isDisposed (controllers s p) \<and> (code = Some 0 \<or> signal = Some ''SIGTERM'')"
  then show clean: "on_exit p code signal s = s"
    by (auto simp: on_exit_def)
  show "emitted s (on_exit p code signal s) = []"
    by (simp add: clean emitted_def)
next
  assume "isDisposed (controllers s p)"
  then show ignored: "on_exit p code signal s = s"
    by (simp add: on_exit_def)
  show "emitted s (on_exit p code signal s) = []"
    by (simp add: ignored emitted_def)
qed

theorem exit_reporting_witness:
  "\<not> isDisposed (controllers one_worker 0)
   \<and> emitted one_worker (on_exit 0 (Some 139) (Some ''SIGSEGV'') one_worker)
       = [PostMessage WorkerError (Some ''Child process crashed with exit code 139 and signal SIGSEGV'')]
   \<and> decimal_of 139 ''139''
   \<and> sublist ''139'' ''Child process crashed with exit code 139 and signal SIGSEGV''
   \<and> sublist ''SIGSEGV'' ''Child process crashed with exit code 139 and signal SIGSEGV''
   \<and> emitted one_worker (on_exit 0 (Some 1) None one_worker)
       = [PostMessage WorkerError (Some ''Child process crashed with exit code 1 and signal null'')]
   \<and> emitted one_worker (on_exit 0 None (Some ''SIGKILL'') one_worker)
       = [PostMessage WorkerError (Some ''Child process crashed with exit code null and signal SIGKILL'')]
   \<and> emitted one_worker (on_exit 0 (Some 0) None one_worker) = []
   \<and> emitted one_worker (on_exit 0 None (Some ''SIGTERM'') one_worker) = []
   \<and> isDisposed (controllers terminated_worker 0)
   \<and> emitted terminated_worker (on_exit 0 (Some 139) (Some ''SIGSEGV'') terminated_worker) = []"
proof -
  have alive: "\<not> isDisposed (controllers one_worker 0)"
    by (simp add: one_worker_controller)
  have gone: "isDisposed (controllers terminated_worker 0)"
    by (simp add: terminated_worker_controller)
  from exit_reporting [of one_worker 0 "Some 139" "Some ''SIGSEGV''"] alive
  obtain c where c: "decimal_of 139 c"
    and e: "emitted one_worker (on_exit 0 (Some 139) (Some ''SIGSEGV'') one_worker) =
              [PostMessage WorkerError
                (Some (''Child process crashed with exit code '' @ c @ '' and signal '' @ ''SIGSEGV''))]"
    and sc: "sublist c (''Child process crashed with exit code '' @ c @ '' and signal '' @ ''SIGSEGV'')"
    and sg: "sublist ''SIGSEGV'' (''Child process crashed with exit code '' @ c @ '' and signal '' @ ''SIGSEGV'')"
    by auto
  have "emitted one_worker (on_exit 0 (Some 139) (Some ''SIGSEGV'') one_worker) =
          [PostMessage WorkerError
            (Some (''Child process crashed with exit code '' @ ''139'' @ '' and signal '' @ ''SIGSEGV''))]"
    using alive by (simp add: on_exit_crash emitted_def show_code_139 show_signal_def)
  with e have "c = ''139''"
    by simp
  with c e sc sg have segv:
    "emitted one_worker (on_exit 0 (Some 139) (Some ''SIGSEGV'') one_worker)
       = [PostMessage WorkerError (Some ''Child process crashed with exit code 139 and signal SIGSEGV'')]"
    "decimal_of 139 ''139''"
    "sublist ''139'' ''Child process crashed with exit code 139 and signal SIGSEGV''"
    "sublist ''SIGSEGV'' ''Child process crashed with exit code 139 and signal SIGSEGV''"
    by simp_all
  have one: "emitted one_worker (on_exit 0 (Some 1) None one_worker)
       = [PostMessage WorkerError (Some ''Child process crashed with exit code 1 and signal null'')]"
    using alive by (simp add: on_exit_crash emitted_def show_one show_signal_def)
  have kill: "emitted one_worker (on_exit 0 None (Some ''SIGKILL'') one_worker)
       = [PostMessage WorkerError (Some ''Child process crashed with exit code null and signal SIGKILL'')]"
    using alive by (simp add: on_exit_crash emitted_def show_code_def show_signal_def)
  from exit_reporting [of one_worker 0 "Some 0" None] alive
  have zero: "emitted one_worker (on_exit 0 (Some 0) None one_worker) = []"
    by (simp add: emitted_def)
  from exit_reporting [of one_worker 0 None "Some ''SIGTERM''"] alive
  have sigterm: "emitted one_worker (on_exit 0 None (Some ''SIGTERM'') one_worker) = []"
    by (simp add: emitted_def)
  from exit_reporting [of terminated_worker 0 "Some 139" "Some ''SIGSEGV''"] gone
  have late: "emitted terminated_worker (on_exit 0 (Some 139) (Some ''SIGSEGV'') terminated_worker) = []"
    by (simp add: emitted_def)
  from alive gone segv one kill zero sigterm late show ?thesis
    by (intro conjI)
qed

text \<open>
  C7. A buffer that arrives on the port of a controller that is not disposed while its child
  is not connected: \<^verbatim>\<open>send\<close> returns normally, the buffer is not sent to the child and
  is kept nowhere (the state changes in its log only), and exactly one Warn message is
  emitted.
\<close>

theorem send_to_disconnected_child:
  assumes "\<not> isDisposed (controllers s p)"
    and "\<forall>c. child (controllers s p) = Some c \<longrightarrow> \<not> connected c"
  shows "send connected p buffer s =
           s\<lparr>effects := effects s @ [PostMessage WorkerWarn (Some ''Unable to deliver message to disconnected child'')]\<rparr>
       \<and> emitted s (send connected p buffer s)
           = [PostMessage WorkerWarn (Some ''Unable to deliver message to disconnected child'')]"
  using assms
  by (auto simp: send_def Logger_warn_def postMessage_def emitted_def split: option.splits)

theorem send_to_disconnected_child_witness:
  "\<not> isDisposed (controllers one_worker 0)
   \<and> child (controllers one_worker 0) = Some 0
   \<and> emitted one_worker (step sample_hashObject (\<lambda>_. False) one_worker (PortMessage 0 ''payload'' False))
       = [PostMessage WorkerWarn (Some ''Unable to deliver message to disconnected child'')]"
proof -
  have live: "\<not> isDisposed (controllers one_worker 0)"
    by (simp add: one_worker_controller)
  have off: "\<forall>c. child (controllers one_worker 0) = Some c \<longrightarrow> \<not> (\<lambda>_. False) c"
    by simp
  have cb: "has_callbacks one_worker 0"
    by (simp add: has_callbacks_def one_worker_controller) (simp add: one_worker_def evaluation)
  show ?thesis
    using send_to_disconnected_child [OF live off, of "''payload''"] live cb
    by (simp add: one_worker_controller emitted_def)
qed

text \<open>
  Three of the four callbacks look at \<^verbatim>\<open>isDisposed\<close> first and leave everything as it is
  once the controller is disposed.
\<close>

lemma silent_after_dispose:
  assumes "isDisposed (controllers s p)"
  shows "on_exit p code signal s = s" and "onRawMessage L p msg s = s" and "send connected p buffer s = s"
  using assms by (simp_all add: on_exit_def onRawMessage_def send_def)

text \<open>The fourth emits its warning whatever the state of the controller.\<close>

lemma on_error_emitted:
  "emitted s (on_error p e s) = [PostMessage WorkerWarn (Some (''Error from child process: '' @ e))]"
  by (simp add: on_error_def Logger_warn_def postMessage_def emitted_def)

text \<open>
  C3, at the worker of the scenario after its Terminate message: the controller is
  disposed, and an \<^verbatim>\<open>error\<close> event of its child still emits a Warn message. The
  \<^verbatim>\<open>error\<close> callback is the one callback that does not look at \<^verbatim>\<open>isDisposed\<close>.
\<close>

theorem error_reported_after_dispose:
  "isDisposed (controllers terminated_worker 0)
   \<and> has_callbacks terminated_worker 0
   \<and> emitted terminated_worker
        (step sample_hashObject (\<lambda>_. False) terminated_worker (ChildError 0 ''kill EPERM''))
      = [PostMessage WorkerWarn (Some ''Error from child process: kill EPERM'')]"
proof -
  have cb: "has_callbacks terminated_worker 0"
    by (simp add: has_callbacks_def terminated_worker_controller)
       (simp add: terminated_worker_def one_worker_def evaluation)
  then show ?thesis
    by (simp add: terminated_worker_controller on_error_emitted)
qed

section \<open>Control messages\<close>

text \<open>
  C8 as it is stated fails: a ReceivePort message without an environment, or without a
  port in front of its transfer list, is dropped without any warning. Here the worker has
  just been created; its state stays what it was, and no Warn message is in its log.
\<close>

theorem malformed_handoff_is_not_reported:
  "notifyMessage sample_hashObject ForkReturns
     \<lparr>message_id = ReceivePort, message_configuration = 0, message_environment = None\<rparr>
     [MessagePort 7] create = create
   \<and> notifyMessage sample_hashObject ForkReturns
     \<lparr>message_id = ReceivePort, message_configuration = 0, message_environment = Some sample_environment\<rparr>
     [] create = create
   \<and> filter (posted WorkerWarn) (effects create) = []"
  by (simp add: notifyMessage_def create_def message_kinds)

text \<open>
  C8, amended. A message of a kind other than ReceivePort and WorkerTerminate emits exactly
  one Warn message and changes nothing else. A ReceivePort message whose transfer list does
  not start with a port, or that has no environment, changes nothing and emits nothing:
  it is ignored without a diagnostic.
\<close>

theorem protocol_violations:
  "(message_id m \<noteq> ReceivePort \<and> message_id m \<noteq> WorkerTerminate \<longrightarrow>
      notifyMessage H fr m transfer s = s\<lparr>effects := effects s @ [PostMessage WorkerWarn (Some unexpected_message)]\<rparr>
      \<and> emitted s (notifyMessage H fr m transfer s) = [PostMessage WorkerWarn (Some unexpected_message)])
   \<and> (message_id m = ReceivePort \<and> (first_port transfer = None \<or> message_environment m = None) \<longrightarrow>
      notifyMessage H fr m transfer s = s \<and> emitted s (notifyMessage H fr m transfer s) = [])"
proof (intro conjI impI)
  assume other: "message_id m \<noteq> ReceivePort \<and> message_id m \<noteq> WorkerTerminate"
  then show warned:
    "notifyMessage H fr m transfer s = s\<lparr>effects := effects s @ [PostMessage WorkerWarn (Some unexpected_message)]\<rparr>"
    by (simp add: notifyMessage_def Logger_warn_def postMessage_def)
  show "emitted s (notifyMessage H fr m transfer s) = [PostMessage WorkerWarn (Some unexpected_message)]"
    by (simp add: warned emitted_def)
next
  assume malformed: "message_id m = ReceivePort \<and> (first_port transfer = None \<or> message_environment m = None)"
  then show ignored: "notifyMessage H fr m transfer s = s"
    by (auto simp: notifyMessage_def split: option.splits)
  show "emitted s (notifyMessage H fr m transfer s) = []"
    by (simp add: ignored emitted_def)
qed

theorem protocol_violations_witness:
  "emitted one_worker
     (notifyMessage sample_hashObject ForkReturns
        \<lparr>message_id = RequestPort, message_configuration = 0, message_environment = None\<rparr> [] one_worker)
     = [PostMessage WorkerWarn (Some unexpected_message)]
   \<and> first_port [OtherTransferable, MessagePort 7] = None
   \<and> notifyMessage sample_hashObject ForkReturns
        \<lparr>message_id = ReceivePort, message_configuration = 0, message_environment = Some sample_environment\<rparr>
        [OtherTransferable, MessagePort 7] one_worker = one_worker
   \<and> notifyMessage sample_hashObject ForkReturns
        \<lparr>message_id = ReceivePort, message_configuration = 0, message_environment = None\<rparr>
        [MessagePort 7] one_worker = one_worker"
  using protocol_violations [where m = "\<lparr>message_id = RequestPort, message_configuration = 0, message_environment = None\<rparr>"
      and H = sample_hashObject and fr = ForkReturns and transfer = "[]" and s = one_worker]
    protocol_violations [where m = "\<lparr>message_id = ReceivePort, message_configuration = 0, message_environment = Some sample_environment\<rparr>"
      and H = sample_hashObject and fr = ForkReturns and transfer = "[OtherTransferable, MessagePort 7]" and s = one_worker]
    protocol_violations [where m = "\<lparr>message_id = ReceivePort, message_configuration = 0, message_environment = None\<rparr>"
      and H = sample_hashObject and fr = ForkReturns and transfer = "[MessagePort 7]" and s = one_worker]
  by (simp add: kinds_distinct emitted_def)

text \<open>
  C9. A Terminate message for a configuration whose fingerprint has no entry in the map
  emits nothing, and leaves the map, the controllers and the closing flag as they are. The
  one thing that changes is the store: \<^verbatim>\<open>hash\<close> has emptied the nonce of the
  configuration that came with the message.
\<close>

theorem terminate_unregistered_is_silent:
  assumes "mapConfigurationToProcess s (fst (hash H (store s) cfg)) = None"
  shows "(let t = notifyMessage H fr
                    \<lparr>message_id = WorkerTerminate, message_configuration = cfg, message_environment = e\<rparr>
                    transfer s
          in emitted s t = []
           \<and> effects t = effects s
           \<and> mapConfigurationToProcess t = mapConfigurationToProcess s
           \<and> controllers t = controllers s
           \<and> closing t = closing s
           \<and> t = terminate H cfg s
           \<and> t = s\<lparr>store := snd (hash H (store s) cfg)\<rparr>)"
  using assms
  by (simp add: notifyMessage_def onTerminate_def kinds_distinct [symmetric] terminate_absent emitted_def)

theorem terminate_unregistered_is_silent_witness:
  "mapConfigurationToProcess one_worker (message_fingerprint sample_hashObject other_scenario) = None
   \<and> mapConfigurationToProcess one_worker 20 = Some 0
   \<and> effects terminate_other = effects one_worker
   \<and> mapConfigurationToProcess terminate_other = mapConfigurationToProcess one_worker
   \<and> controllers terminate_other = controllers one_worker
   \<and> \<not> closing terminate_other"
proof -
  let ?s = "one_worker\<lparr>store := snd (allocate other_scenario (store one_worker))\<rparr>"
  have fp: "message_fingerprint sample_hashObject other_scenario = 25"
    by (simp add: message_fingerprint_def sample_hashObject_def other_scenario_def)
  have key: "fst (hash sample_hashObject (store ?s) 1) = 25"
    using hash_of_allocated [of sample_hashObject other_scenario "store one_worker"]
    by (simp add: one_worker_counters fp [unfolded message_fingerprint_def])
  have none: "mapConfigurationToProcess ?s (fst (hash sample_hashObject (store ?s) 1)) = None"
    unfolding key by (simp add: one_worker_map)
  have eq: "terminate_other = notifyMessage sample_hashObject ForkReturns
      \<lparr>message_id = WorkerTerminate, message_configuration = 1, message_environment = None\<rparr> [] ?s"
    by (simp add: terminate_other_def split_def Let_def allocate_fst one_worker_counters)
  show ?thesis
    using terminate_unregistered_is_silent [OF none, of ForkReturns None "[]"]
    unfolding Let_def eq [symmetric]
    by (simp add: fp one_worker_map one_worker_counters)
qed

text \<open>
  C10. When \<^verbatim>\<open>terminate\<close> finds an entry for the fingerprint, it traces, disposes the
  controller (killing its child), deletes that one entry and calls \<^verbatim>\<open>close()\<close>, whether
  it was reached from a Terminate message or from a ReceivePort message for the same
  fingerprint. Nothing is asked of the other entries of the map, and they stay.
\<close>

theorem terminate_closes_the_worker:
  assumes "mapConfigurationToProcess s (fst (hash H (store s) cfg)) = Some p"
  shows "(let k = fst (hash H (store s) cfg);
              kill = (case child (controllers s p) of None \<Rightarrow> [] | Some c \<Rightarrow> [Kill c]);
              t = notifyMessage H fr
                    \<lparr>message_id = WorkerTerminate, message_configuration = cfg, message_environment = e\<rparr>
                    transfer s;
              r = notifyMessage H fr'
                    \<lparr>message_id = ReceivePort, message_configuration = cfg, message_environment = Some env\<rparr>
                    (MessagePort prt # transfer') s
          in emitted s t = PostMessage WorkerTrace (Some ''Terminating worker process'') # kill @ [Close]
           \<and> closing t
           \<and> isDisposed (controllers t p)
           \<and> mapConfigurationToProcess t = (mapConfigurationToProcess s)(k := None)
           \<and> prefix (PostMessage WorkerTrace (Some ''Received the message port and configuration'')
                      # PostMessage WorkerTrace (Some ''Terminating worker process'') # kill @ [Close])
                     (emitted s r)
           \<and> closing r)"
proof -
  let ?kill = "case child (controllers s p) of None \<Rightarrow> [] | Some c \<Rightarrow> [Kill c]"
  let ?t = "terminate H cfg s"
  let ?s1 = "Logger_trace ''Received the message port and configuration'' s"
  let ?mid = "terminate H cfg ?s1"
  let ?r = "spawn_and_remember H fr' prt cfg env ?mid"
  have t: "notifyMessage H fr
             \<lparr>message_id = WorkerTerminate, message_configuration = cfg, message_environment = e\<rparr>
             transfer s = ?t"
    by (simp add: notifyMessage_def onTerminate_def kinds_distinct [symmetric])
  have r: "notifyMessage H fr'
             \<lparr>message_id = ReceivePort, message_configuration = cfg, message_environment = Some env\<rparr>
             (MessagePort prt # transfer') s = ?r"
    by (simp add: notifyMessage_def onReceivePort_def)
  note t_eq = terminate_present [OF assms]
  have "mapConfigurationToProcess ?s1 (fst (hash H (store ?s1) cfg)) = Some p"
    using assms by (simp add: Logger_trace_def postMessage_simps)
  note mid_eq = terminate_present [OF this]
  have mid_effects: "effects ?mid = effects s @
      PostMessage WorkerTrace (Some ''Received the message port and configuration'')
      # PostMessage WorkerTrace (Some ''Terminating worker process'') # ?kill @ [Close]"
    by (simp only: mid_eq) (simp add: Logger_trace_def postMessage_simps)
  obtain rest where "effects ?r = effects ?mid @ rest"
    using spawn_and_remember_effects [of ?mid H fr' prt cfg env] by (auto simp: prefix_def)
  then have "emitted s ?r =
      (PostMessage WorkerTrace (Some ''Received the message port and configuration'')
       # PostMessage WorkerTrace (Some ''Terminating worker process'') # ?kill @ [Close]) @ rest"
    by (simp add: emitted_def mid_effects)
  then have 5: "prefix (PostMessage WorkerTrace (Some ''Received the message port and configuration'')
                      # PostMessage WorkerTrace (Some ''Terminating worker process'') # ?kill @ [Close])
                     (emitted s ?r)"
    by (simp only: prefixI)
  have 1: "emitted s ?t = PostMessage WorkerTrace (Some ''Terminating worker process'') # ?kill @ [Close]"
    by (simp add: t_eq emitted_def)
  have 2: "closing ?t" "isDisposed (controllers ?t p)"
    "mapConfigurationToProcess ?t = (mapConfigurationToProcess s)(fst (hash H (store s) cfg) := None)"
    by (simp_all add: t_eq)
  have 6: "closing ?r"
    by (simp add: spawn_and_remember_closing mid_eq)
  show ?thesis
    unfolding Let_def t r using 1 2 5 6 by (intro conjI)
qed

theorem terminate_closes_the_worker_witness:
  "mapConfigurationToProcess two_workers = [20 \<mapsto> 0, 25 \<mapsto> 1]
   \<and> emitted two_workers
        (notifyMessage sample_hashObject ForkReturns
          \<lparr>message_id = WorkerTerminate, message_configuration = 0, message_environment = None\<rparr> [] two_workers)
      = [PostMessage WorkerTrace (Some ''Terminating worker process''), Kill 0, Close]
   \<and> closing
        (notifyMessage sample_hashObject ForkReturns
          \<lparr>message_id = WorkerTerminate, message_configuration = 0, message_environment = None\<rparr> [] two_workers)
   \<and> mapConfigurationToProcess
        (notifyMessage sample_hashObject ForkReturns
          \<lparr>message_id = WorkerTerminate, message_configuration = 0, message_environment = None\<rparr> [] two_workers)
      = [25 \<mapsto> 1]"
proof -
  have reg: "mapConfigurationToProcess two_workers (fst (hash sample_hashObject (store two_workers) 0)) = Some 0"
    by (simp add: two_workers_key two_workers_map)
  have m: "[20 \<mapsto> 0, 25 \<mapsto> 1::nat](20::int := None) = [25 \<mapsto> 1]"
    by (rule ext) simp
  show ?thesis
    using terminate_closes_the_worker [OF reg, of ForkReturns None "[]" ForkReturns sample_environment 7 "[]",
        unfolded Let_def, THEN conjunct1]
      terminate_closes_the_worker [OF reg, of ForkReturns None "[]" ForkReturns sample_environment 7 "[]",
        unfolded Let_def, THEN conjunct2, THEN conjunct1]
      terminate_closes_the_worker [OF reg, of ForkReturns None "[]" ForkReturns sample_environment 7 "[]",
        unfolded Let_def, THEN conjunct2, THEN conjunct2, THEN conjunct2, THEN conjunct1]
    by (simp add: two_workers_map two_workers_key two_workers_controller m)
qed

section \<open>One live controller for a fingerprint\<close>

lemma live_simps:
  "live (s\<lparr>effects := es\<rparr>) p = live s p"
  "live (s\<lparr>closing := b\<rparr>) p = live s p"
  "live (s\<lparr>store := h\<rparr>) p = live s p"
  "live (s\<lparr>mapConfigurationToProcess := m\<rparr>) p = live s p"
  "live (s\<lparr>next_child := n\<rparr>) p = live s p"
  by (simp_all add: live_def)

lemma fingerprint_of_simps:
  "fingerprint_of H (s\<lparr>effects := es\<rparr>) p = fingerprint_of H s p"
  "fingerprint_of H (s\<lparr>closing := b\<rparr>) p = fingerprint_of H s p"
  "fingerprint_of H (s\<lparr>mapConfigurationToProcess := m\<rparr>) p = fingerprint_of H s p"
  "fingerprint_of H (s\<lparr>next_child := n\<rparr>) p = fingerprint_of H s p"
  "fingerprint_of H (s\<lparr>next_controller := n\<rparr>) p = fingerprint_of H s p"
  "fingerprint_of H (s\<lparr>store := snd (hash H (store s) c)\<rparr>) p = fingerprint_of H s p"
  by (simp_all add: fingerprint_of_def hash_value_after_hash)

lemma consistent_effects: "consistent H (s\<lparr>effects := es\<rparr>) = consistent H s"
  by (simp add: consistent_def live_simps fingerprint_of_simps)

lemma consistent_closing: "consistent H (s\<lparr>closing := b\<rparr>) = consistent H s"
  by (simp add: consistent_def live_simps fingerprint_of_simps)

lemma consistent_postMessage: "consistent H (postMessage i m s) = consistent H s"
  by (simp add: postMessage_def consistent_effects)

lemma consistent_hash: "consistent H s \<Longrightarrow> consistent H (s\<lparr>store := snd (hash H (store s) c)\<rparr>)"
  by (simp add: consistent_def live_simps fingerprint_of_simps store_ok_hash hash_next_addr)

lemma consistent_allocate:
  assumes "consistent H s"
  shows "consistent H (s\<lparr>store := snd (allocate g (store s))\<rparr>)"
proof -
  have ok: "store_ok (store s)"
    and cfgs: "\<And>p. p < next_controller s \<Longrightarrow> configuration (controllers s p) < next_addr (store s)"
    using assms by (simp_all add: consistent_def)
  have fp: "fingerprint_of H (s\<lparr>store := snd (allocate g (store s))\<rparr>) p = fingerprint_of H s p"
    if "p < next_controller s" for p
    using that by (simp add: fingerprint_of_def hash_after_allocate ok cfgs)
  have fp_live: "fingerprint_of H (s\<lparr>store := snd (allocate g (store s))\<rparr>) p = fingerprint_of H s p"
    if "live s p" for p
    using that fp by (simp add: live_def)
  show ?thesis
    using assms
    by (simp add: consistent_def live_simps store_ok_allocate allocate_next_addr less_Suc_eq fp_live)
qed

lemma consistentD:
  assumes "consistent H s"
  shows "store_ok (store s)"
    and "\<And>q. q < next_controller s \<Longrightarrow> configuration (controllers s q) < next_addr (store s)"
    and "\<And>k q. mapConfigurationToProcess s k = Some q \<Longrightarrow> live s q \<and> fingerprint_of H s q = k"
    and "\<And>q. live s q \<Longrightarrow> mapConfigurationToProcess s (fingerprint_of H s q) = Some q"
    and "\<And>q c. q < next_controller s \<Longrightarrow> child (controllers s q) = Some c \<Longrightarrow> c < next_child s"
  using assms by (simp_all add: consistent_def)

lemma consistent_forget:
  assumes "consistent H s" and "mapConfigurationToProcess s k = Some p"
  shows "consistent H
           (s\<lparr>mapConfigurationToProcess := (mapConfigurationToProcess s)(k := None),
              controllers := (controllers s)(p := (controllers s p)\<lparr>isDisposed := True\<rparr>)\<rparr>)"
    (is "consistent H ?t")
proof -
  note inv = consistentD [OF assms(1)]
  have p: "live s p" "fingerprint_of H s p = k"
    using inv(3) [OF assms(2)] by simp_all
  have live_t: "live ?t q \<longleftrightarrow> live s q \<and> q \<noteq> p" for q
    by (auto simp: live_def)
  have fp_t: "fingerprint_of H ?t q = fingerprint_of H s q" for q
    by (simp add: fingerprint_of_def)
  show ?thesis
    unfolding consistent_def
  proof (intro conjI allI impI)
    show "store_ok (store ?t)" using inv(1) by simp
    show "configuration (controllers ?t q) < next_addr (store ?t)" if "q < next_controller ?t" for q
      using that inv(2) [of q] by auto
    show "live ?t q" if "mapConfigurationToProcess ?t j = Some q" for j q
    proof -
      from that have j: "j \<noteq> k" and m: "mapConfigurationToProcess s j = Some q"
        by (auto split: if_splits)
      from inv(3) [OF m] j p have "q \<noteq> p" by auto
      with inv(3) [OF m] show ?thesis by (simp add: live_t)
    qed
    show "fingerprint_of H ?t q = j" if "mapConfigurationToProcess ?t j = Some q" for j q
    proof -
      from that have m: "mapConfigurationToProcess s j = Some q"
        by (auto split: if_splits)
      with inv(3) [OF m] show ?thesis by (simp add: fp_t)
    qed
    show "mapConfigurationToProcess ?t (fingerprint_of H ?t q) = Some q" if "live ?t q" for q
    proof -
      from that have q: "live s q" "q \<noteq> p" by (simp_all add: live_t)
      from inv(4) [OF q(1)] assms(2) q(2) have "fingerprint_of H s q \<noteq> k" by auto
      with inv(4) [OF q(1)] show ?thesis by (simp add: fp_t)
    qed
    show "c < next_child ?t" if "q < next_controller ?t" "child (controllers ?t q) = Some c" for q c
      using that inv(5) [of q c] by (auto split: if_splits)
  qed
qed

lemma consistent_construct:
  assumes "consistent H s" and "cfg < next_addr (store s)"
  shows "consistent H
           (s\<lparr>controllers := (controllers s)
                 (next_controller s := \<lparr>port = prt, configuration = cfg, environment = env,
                                        child = None, isDisposed = False\<rparr>),
              next_controller := Suc (next_controller s)\<rparr>)"
    (is "consistent H ?t")
proof -
  note inv = consistentD [OF assms(1)]
  have live_t: "live ?t q \<longleftrightarrow> live s q" for q
    by (auto simp: live_def less_Suc_eq)
  have fp_t: "fingerprint_of H ?t q = fingerprint_of H s q" if "live s q" for q
    using that by (auto simp: fingerprint_of_def live_def)
  show ?thesis
    unfolding consistent_def
  proof (intro conjI allI impI)
    show "store_ok (store ?t)" using inv(1) by simp
    show "configuration (controllers ?t q) < next_addr (store ?t)" if "q < next_controller ?t" for q
      using that inv(2) [of q] assms(2) by (auto simp: less_Suc_eq)
    show "live ?t q" if "mapConfigurationToProcess ?t j = Some q" for j q
      using that inv(3) [of j q] by (simp add: live_t)
    show "fingerprint_of H ?t q = j" if "mapConfigurationToProcess ?t j = Some q" for j q
      using that inv(3) [of j q] by (simp add: fp_t)
    show "mapConfigurationToProcess ?t (fingerprint_of H ?t q) = Some q" if "live ?t q" for q
      using that inv(4) [of q] by (simp add: live_t fp_t)
    show "c < next_child ?t" if "q < next_controller ?t" "child (controllers ?t q) = Some c" for q c
      using that inv(5) [of q c] by (auto simp: less_Suc_eq split: if_splits)
  qed
qed

lemma consistent_remember:
  assumes "consistent H s" and "cfg < next_addr (store s)"
    and "k = fst (hash H (store s) cfg)" and "mapConfigurationToProcess s k = None"
  shows "consistent H
           (s\<lparr>mapConfigurationToProcess := (mapConfigurationToProcess s)(k \<mapsto> next_controller s),
              controllers := (controllers s)
                 (next_controller s := \<lparr>port = prt, configuration = cfg, environment = env,
                                        child = Some (next_child s), isDisposed = False\<rparr>),
              next_controller := Suc (next_controller s),
              next_child := Suc (next_child s)\<rparr>)"
    (is "consistent H ?t")
proof -
  let ?n = "next_controller s"
  note inv = consistentD [OF assms(1)]
  have live_t: "live ?t q \<longleftrightarrow> live s q \<or> q = ?n" for q
    by (auto simp: live_def less_Suc_eq)
  have fp_old: "fingerprint_of H ?t q = fingerprint_of H s q" if "live s q" for q
    using that by (auto simp: fingerprint_of_def live_def)
  have fp_new: "fingerprint_of H ?t ?n = k"
    by (simp add: fingerprint_of_def assms(3))
  show ?thesis
    unfolding consistent_def
  proof (intro conjI allI impI)
    show "store_ok (store ?t)" using inv(1) by simp
    show "configuration (controllers ?t q) < next_addr (store ?t)" if "q < next_controller ?t" for q
      using that inv(2) [of q] assms(2) by (auto simp: less_Suc_eq)
    show "live ?t q" if "mapConfigurationToProcess ?t j = Some q" for j q
      using that inv(3) [of j q] by (auto simp: live_t split: if_splits)
    show "fingerprint_of H ?t q = j" if "mapConfigurationToProcess ?t j = Some q" for j q
    proof (cases "j = k")
      case True
      with that have q: "q = ?n" by simp
      show ?thesis unfolding q True by (rule fp_new)
    next
      case False
      with that have "mapConfigurationToProcess s j = Some q" by simp
      from inv(3) [OF this] show ?thesis by (simp add: fp_old)
    qed
    show "mapConfigurationToProcess ?t (fingerprint_of H ?t q) = Some q" if "live ?t q" for q
    proof (cases "q = ?n")
      case True
      show ?thesis unfolding True fp_new by simp
    next
      case False
      with that have q: "live s q" by (simp add: live_t)
      from inv(4) [OF q] assms(4) have "fingerprint_of H s q \<noteq> k" by auto
      with inv(4) [OF q] show ?thesis by (simp add: fp_old [OF q])
    qed
    show "c < next_child ?t" if "q < next_controller ?t" "child (controllers ?t q) = Some c" for q c
      using that inv(5) [of q c] by (auto simp: less_Suc_eq split: if_splits)
  qed
qed

lemma consistent_terminate:
  assumes "consistent H s"
  shows "consistent H (terminate H cfg s)"
proof (cases "mapConfigurationToProcess s (fst (hash H (store s) cfg))")
  case None
  then show ?thesis
    using assms by (simp add: terminate_absent consistent_hash)
next
  case (Some p)
  let ?s1 = "s\<lparr>store := snd (hash H (store s) cfg)\<rparr>"
  have "consistent H ?s1"
    using assms by (rule consistent_hash)
  moreover have "mapConfigurationToProcess ?s1 (fst (hash H (store s) cfg)) = Some p"
    using Some by simp
  ultimately have "consistent H
           (?s1\<lparr>mapConfigurationToProcess := (mapConfigurationToProcess ?s1)(fst (hash H (store s) cfg) := None),
              controllers := (controllers ?s1)(p := (controllers ?s1 p)\<lparr>isDisposed := True\<rparr>)\<rparr>)"
    by (rule consistent_forget)
  then show ?thesis
    by (simp add: terminate_present [OF Some] consistent_effects consistent_closing)
qed

lemma consistent_spawn_and_remember:
  assumes "consistent H s" and "cfg < next_addr (store s)"
    and "mapConfigurationToProcess s (fst (hash H (store s) cfg)) = None"
  shows "consistent H (spawn_and_remember H fr prt cfg env s)"
proof (cases fr)
  case (ForkThrows e)
  show ?thesis
    using consistent_construct [OF assms(1,2)]
    by (simp add: ForkThrows spawn_and_remember_throws consistent_effects)
next
  case ForkReturns
  let ?s1 = "s\<lparr>store := snd (hash H (store s) cfg)\<rparr>"
  have 1: "consistent H ?s1"
    using assms(1) by (rule consistent_hash)
  have 2: "cfg < next_addr (store ?s1)"
    using assms(2) by (simp add: hash_next_addr)
  have 3: "fst (hash H (store s) cfg) = fst (hash H (store ?s1) cfg)"
    by (simp add: hash_value_after_hash)
  have 4: "mapConfigurationToProcess ?s1 (fst (hash H (store s) cfg)) = None"
    using assms(3) by simp
  show ?thesis
    using consistent_remember [OF 1 2 3 4]
    by (simp add: ForkReturns spawn_and_remember_returns consistent_effects)
qed

lemma consistent_onReceivePort:
  assumes "consistent H s" and "cfg < next_addr (store s)"
  shows "consistent H (onReceivePort H fr prt cfg env s)"
proof -
  let ?s1 = "Logger_trace ''Received the message port and configuration'' s"
  have 1: "consistent H ?s1"
    using assms(1) by (simp add: Logger_trace_def consistent_postMessage)
  have st: "store ?s1 = store s"
    by (simp add: Logger_trace_def postMessage_simps)
  have 2: "consistent H (terminate H cfg ?s1)"
    using 1 by (rule consistent_terminate)
  have 3: "cfg < next_addr (store (terminate H cfg ?s1))"
    using assms(2) by (simp add: terminate_fields st hash_next_addr)
  have 4: "mapConfigurationToProcess (terminate H cfg ?s1)
             (fst (hash H (store (terminate H cfg ?s1)) cfg)) = None"
    by (simp add: terminate_fields hash_value_after_hash)
  show ?thesis
    unfolding onReceivePort_def by (rule consistent_spawn_and_remember [OF 2 3 4])
qed

lemma consistent_notifyMessage:
  assumes "consistent H s" and "message_configuration m < next_addr (store s)"
  shows "consistent H (notifyMessage H fr m transfer s)"
  using assms
  by (simp add: notifyMessage_def onTerminate_def consistent_onReceivePort consistent_terminate
      Logger_warn_def consistent_postMessage split: option.splits)

lemma consistent_step:
  assumes "consistent H s"
  shows "consistent H (step H L s e)"
proof (cases e)
  case (Inbound i g env transfer fr)
  have "consistent H (s\<lparr>store := snd (allocate g (store s))\<rparr>)"
    using assms by (rule consistent_allocate)
  then have "consistent H (notifyMessage H fr
      \<lparr>message_id = i, message_configuration = fst (allocate g (store s)), message_environment = env\<rparr>
      transfer (s\<lparr>store := snd (allocate g (store s))\<rparr>))"
    by (rule consistent_notifyMessage) (simp add: allocate_fst allocate_next_addr)
  then show ?thesis
    by (simp add: Inbound split_def Let_def)
next
  case (ChildError p e)
  with assms show ?thesis
    by (simp add: on_error_def Logger_warn_def consistent_postMessage)
next
  case (ChildExit p code signal)
  with assms show ?thesis
    by (simp add: on_exit_def Logger_error_def consistent_postMessage)
next
  case (ChildMessage p msg)
  with assms show ?thesis
    by (simp add: onRawMessage_def consistent_effects)
next
  case (PortMessage p buffer conn)
  with assms show ?thesis
    by (simp add: send_def Logger_warn_def consistent_postMessage consistent_effects split: option.splits)
qed

lemma consistent_create: "consistent H create"
  by (simp add: consistent_def create_def store_ok_def empty_store_def live_def)

lemma consistent_run: "consistent H s \<Longrightarrow> consistent H (run H L s es)"
  by (induction es arbitrary: s) (simp_all add: consistent_step)

lemma at_most_one_live:
  assumes "consistent H s" and "live s p" and "live s q"
    and "fingerprint_of H s p = fingerprint_of H s q"
  shows "p = q"
proof -
  note inv = consistentD [OF assms(1)]
  from inv(4) [OF assms(2)]
  have "Some p = mapConfigurationToProcess s (fingerprint_of H s p)" by (rule sym)
  also have "\<dots> = mapConfigurationToProcess s (fingerprint_of H s q)"
    by (simp only: assms(4))
  also from inv(4) [OF assms(3)] have "\<dots> = Some q" .
  finally show ?thesis by simp
qed

lemma received_key:
  "fst (hash H (store (Logger_trace m (s\<lparr>store := snd (allocate g (store s))\<rparr>))) (next_addr (store s)))
     = message_fingerprint H g"
  by (simp add: Logger_trace_def postMessage_simps hash_of_allocated message_fingerprint_def)

lemma after_terminate_present:
  assumes "mapConfigurationToProcess s (message_fingerprint H g) = Some old"
  shows "after_terminate H g s =
     s\<lparr>store := snd (hash H (snd (allocate g (store s))) (next_addr (store s))),
       mapConfigurationToProcess := (mapConfigurationToProcess s)(message_fingerprint H g := None),
       controllers := (controllers s)(old := (controllers s old)\<lparr>isDisposed := True\<rparr>),
       closing := True,
       effects := effects s @
          PostMessage WorkerTrace (Some ''Received the message port and configuration'')
          # PostMessage WorkerTrace (Some ''Terminating worker process'')
          # (case child (controllers s old) of None \<Rightarrow> [] | Some c \<Rightarrow> [Kill c]) @ [Close]\<rparr>"
proof -
  let ?s1 = "Logger_trace ''Received the message port and configuration''
               (s\<lparr>store := snd (allocate g (store s))\<rparr>)"
  have "mapConfigurationToProcess ?s1 (fst (hash H (store ?s1) (next_addr (store s)))) = Some old"
    using assms by (simp only: received_key) (simp add: Logger_trace_def postMessage_simps)
  from terminate_present [OF this] show ?thesis
    by (simp only: after_terminate_def received_key) (simp add: Logger_trace_def postMessage_def)
qed

lemma handoff_step:
  "step H L s (Inbound ReceivePort g (Some env) (MessagePort prt # transfer) fr)
     = spawn_and_remember H fr prt (next_addr (store s)) env (after_terminate H g s)"
  by (simp add: split_def Let_def allocate_fst notifyMessage_def onReceivePort_def after_terminate_def)

lemma after_terminate_store:
  "store (after_terminate H g s) = snd (hash H (snd (allocate g (store s))) (next_addr (store s)))"
  by (simp add: after_terminate_def terminate_fields Logger_trace_def postMessage_simps)

lemma after_terminate_key:
  "fst (hash H (store (after_terminate H g s)) (next_addr (store s))) = message_fingerprint H g"
  by (simp add: after_terminate_store hash_value_after_hash hash_of_allocated message_fingerprint_def)

lemma after_terminate_process:
  "process_objects (store (after_terminate H g s))
     (process (configurations (store (after_terminate H g s)) (next_addr (store s)))) = process_of g"
  by (simp add: after_terminate_store hash_store allocate_def Let_def)

lemma after_terminate_counters:
  "next_controller (after_terminate H g s) = next_controller s"
  "next_child (after_terminate H g s) = next_child s"
  by (simp_all add: after_terminate_def terminate_fields Logger_trace_def postMessage_simps)

lemma after_terminate_map:
  "mapConfigurationToProcess (after_terminate H g s)
     = (mapConfigurationToProcess s)(message_fingerprint H g := None)"
  by (simp only: after_terminate_def terminate_fields received_key)
     (simp add: Logger_trace_def postMessage_simps)

lemma handoff_emitted:
  "emitted (after_terminate H g s)
     (step H L s (Inbound ReceivePort g (Some env) (MessagePort prt # transfer) ForkReturns))
   = [PostMessage WorkerTrace (Some ''Forking worker process''),
      Fork (bootstrapPath env) [''--type='' @ type (process_of g)] (moduleId (process_of g)) (next_child s),
      PostMessage WorkerTrace (Some ''Worker is ready''),
      PostMessage WorkerReady None]"
  by (simp only: handoff_step) (simp add: spawn_and_remember_returns emitted_def after_terminate_process
      after_terminate_counters)

lemma handoff_map:
  "mapConfigurationToProcess
     (step H L s (Inbound ReceivePort g (Some env) (MessagePort prt # transfer) ForkReturns))
   = (mapConfigurationToProcess s)(message_fingerprint H g \<mapsto> next_controller s)"
  by (simp only: handoff_step) (simp add: spawn_and_remember_returns after_terminate_key after_terminate_counters
      after_terminate_map)

lemma handoff_controllers:
  "controllers
     (step H L s (Inbound ReceivePort g (Some env) (MessagePort prt # transfer) ForkReturns))
   = (controllers (after_terminate H g s))
       (next_controller s := \<lparr>port = prt, configuration = next_addr (store s), environment = env,
                               child = Some (next_child s), isDisposed = False\<rparr>)"
  by (simp only: handoff_step) (simp add: spawn_and_remember_returns after_terminate_counters)

lemma handoff_next_controller:
  "next_controller
     (step H L s (Inbound ReceivePort g (Some env) (MessagePort prt # transfer) ForkReturns))
   = Suc (next_controller s)"
  by (simp only: handoff_step) (simp add: spawn_and_remember_returns after_terminate_counters)

lemma consistent_after_terminate:
  assumes "consistent H s"
  shows "consistent H (after_terminate H g s)"
proof -
  have "consistent H (s\<lparr>store := snd (allocate g (store s))\<rparr>)"
    using assms by (rule consistent_allocate)
  then have "consistent H (Logger_trace ''Received the message port and configuration''
                            (s\<lparr>store := snd (allocate g (store s))\<rparr>))"
    by (simp add: Logger_trace_def consistent_postMessage)
  then show ?thesis
    unfolding after_terminate_def by (rule consistent_terminate)
qed

lemma none_live_after_terminate:
  assumes "consistent H s" and "live (after_terminate H g s) p"
  shows "fingerprint_of H (after_terminate H g s) p \<noteq> message_fingerprint H g"
proof
  assume "fingerprint_of H (after_terminate H g s) p = message_fingerprint H g"
  moreover note consistentD(4) [OF consistent_after_terminate [OF assms(1)] assms(2)]
  ultimately have "mapConfigurationToProcess (after_terminate H g s) (message_fingerprint H g) = Some p"
    by (simp only:)
  then show False
    by (simp add: after_terminate_map)
qed

lemma replacement:
  fixes H L s g env prt transfer old
  defines "s' \<equiv> step H L s (Inbound ReceivePort g (Some env) (MessagePort prt # transfer) ForkReturns)"
  assumes inv: "consistent H s" and reg: "mapConfigurationToProcess s (message_fingerprint H g) = Some old"
  shows "live s old"
    and "\<exists>c. child (controllers s old) = Some c \<and> c < next_child s
            \<and> emitted s (after_terminate H g s) =
                [PostMessage WorkerTrace (Some ''Received the message port and configuration''),
                 PostMessage WorkerTrace (Some ''Terminating worker process''), Kill c, Close]"
    and "isDisposed (controllers (after_terminate H g s) old)"
    and "\<not> live (after_terminate H g s) old"
    and "old \<noteq> next_controller s"
    and "live s' (next_controller s)"
    and "\<not> live s' old"
    and "child (controllers s' (next_controller s)) = Some (next_child s)"
proof -
  note d = consistentD [OF inv]
  note mid = after_terminate_present [OF reg]
  from d(3) [OF reg] show old: "live s old" by simp
  then obtain c where c: "child (controllers s old) = Some c" and lt: "old < next_controller s"
    by (auto simp: live_def)
  from d(5) [OF lt c] have c_lt: "c < next_child s" .
  have "emitted s (after_terminate H g s) =
                [PostMessage WorkerTrace (Some ''Received the message port and configuration''),
                 PostMessage WorkerTrace (Some ''Terminating worker process''), Kill c, Close]"
    by (simp add: mid emitted_def c)
  with c c_lt show "\<exists>c. child (controllers s old) = Some c \<and> c < next_child s
            \<and> emitted s (after_terminate H g s) =
                [PostMessage WorkerTrace (Some ''Received the message port and configuration''),
                 PostMessage WorkerTrace (Some ''Terminating worker process''), Kill c, Close]"
    by blast
  show dis: "isDisposed (controllers (after_terminate H g s) old)"
    by (simp add: mid)
  then show "\<not> live (after_terminate H g s) old"
    by (simp add: live_def)
  from lt show ne: "old \<noteq> next_controller s" by simp
  show "live s' (next_controller s)"
    by (simp only: s'_def live_def handoff_controllers handoff_next_controller) simp
  show "\<not> live s' old"
    using dis ne by (simp only: s'_def live_def handoff_controllers) simp
  show "child (controllers s' (next_controller s)) = Some (next_child s)"
    by (simp only: s'_def handoff_controllers) simp
qed

lemma scenario_fingerprint: "message_fingerprint sample_hashObject (scenario n) = 20"
  by (simp add: message_fingerprint_def sample_hashObject_def scenario_def)

text \<open>
  C1. In every state the worker reaches from its creation, whatever the events, two live
  controllers with the same fingerprint are one and the same controller. When a handoff
  arrives, its call of \<^verbatim>\<open>terminate\<close> leaves no entry at the fingerprint of the
  configuration and no live controller with that fingerprint, and has neither constructed
  a controller nor forked a child; the rest of the handler runs from that state, forks one
  child and files the new controller at the fingerprint. When the fingerprint had an entry, that controller was live; the call of
  \<^verbatim>\<open>terminate\<close> has disposed it and killed its child before anything of the new
  controller happens, and in the end the new controller is live and the old one is not.
\<close>

theorem one_live_controller_per_fingerprint:
  "(let s = run H L create events;
        k = message_fingerprint H g;
        mid = after_terminate H g s;
        s' = step H L s (Inbound ReceivePort g (Some env) (MessagePort prt # transfer) ForkReturns)
    in (\<forall>p q. live s p \<and> live s q \<and> fingerprint_of H s p = fingerprint_of H s q \<longrightarrow> p = q)
     \<and> s' = spawn_and_remember H ForkReturns prt (next_addr (store s)) env mid
     \<and> mapConfigurationToProcess mid k = None
     \<and> (\<forall>p. live mid p \<longrightarrow> fingerprint_of H mid p \<noteq> k)
     \<and> next_controller mid = next_controller s \<and> next_child mid = next_child s
     \<and> emitted mid s' =
         [PostMessage WorkerTrace (Some ''Forking worker process''),
          Fork (bootstrapPath env) [''--type='' @ type (process_of g)] (moduleId (process_of g)) (next_child s),
          PostMessage WorkerTrace (Some ''Worker is ready''),
          PostMessage WorkerReady None]
     \<and> mapConfigurationToProcess s' k = Some (next_controller s)
     \<and> (\<forall>old. mapConfigurationToProcess s k = Some old \<longrightarrow>
           live s old
         \<and> (\<exists>c. child (controllers s old) = Some c \<and> c < next_child s
                \<and> emitted s mid =
                    [PostMessage WorkerTrace (Some ''Received the message port and configuration''),
                     PostMessage WorkerTrace (Some ''Terminating worker process''), Kill c, Close])
         \<and> isDisposed (controllers mid old) \<and> \<not> live mid old
         \<and> old \<noteq> next_controller s
         \<and> live s' (next_controller s) \<and> \<not> live s' old
         \<and> child (controllers s' (next_controller s)) = Some (next_child s)))"
proof -
  let ?s = "run H L create events"
  have inv: "consistent H ?s"
    by (rule consistent_run) (rule consistent_create)
  have one: "\<forall>p q. live ?s p \<and> live ?s q \<and> fingerprint_of H ?s p = fingerprint_of H ?s q \<longrightarrow> p = q"
    using at_most_one_live [OF inv] by blast
  have two: "mapConfigurationToProcess (after_terminate H g ?s) (message_fingerprint H g) = None"
    by (simp add: after_terminate_map)
  have three: "mapConfigurationToProcess
       (step H L ?s (Inbound ReceivePort g (Some env) (MessagePort prt # transfer) ForkReturns))
       (message_fingerprint H g) = Some (next_controller ?s)"
    by (simp only: handoff_map) simp
  show ?thesis
    unfolding Let_def
  proof (intro conjI allI impI)
    fix p q
    assume "live ?s p \<and> live ?s q \<and> fingerprint_of H ?s p = fingerprint_of H ?s q"
    with one show "p = q" by blast
  next
    show "step H L ?s (Inbound ReceivePort g (Some env) (MessagePort prt # transfer) ForkReturns)
        = spawn_and_remember H ForkReturns prt (next_addr (store ?s)) env (after_terminate H g ?s)"
      by (rule handoff_step)
  next
    show "mapConfigurationToProcess (after_terminate H g ?s) (message_fingerprint H g) = None"
      by (rule two)
  next
    fix p
    assume "live (after_terminate H g ?s) p"
    with inv show "fingerprint_of H (after_terminate H g ?s) p \<noteq> message_fingerprint H g"
      by (rule none_live_after_terminate)
  next
    show "next_controller (after_terminate H g ?s) = next_controller ?s"
      by (rule after_terminate_counters)
  next
    show "next_child (after_terminate H g ?s) = next_child ?s"
      by (rule after_terminate_counters)
  next
    show "emitted (after_terminate H g ?s)
        (step H L ?s (Inbound ReceivePort g (Some env) (MessagePort prt # transfer) ForkReturns))
      = [PostMessage WorkerTrace (Some ''Forking worker process''),
         Fork (bootstrapPath env) [''--type='' @ type (process_of g)] (moduleId (process_of g)) (next_child ?s),
         PostMessage WorkerTrace (Some ''Worker is ready''),
         PostMessage WorkerReady None]"
      by (rule handoff_emitted)
  next
    show "mapConfigurationToProcess
       (step H L ?s (Inbound ReceivePort g (Some env) (MessagePort prt # transfer) ForkReturns))
       (message_fingerprint H g) = Some (next_controller ?s)"
      by (rule three)
  qed (rule replacement [OF inv], assumption)+
qed

theorem one_live_controller_per_fingerprint_witness:
  "live one_worker 0
   \<and> mapConfigurationToProcess one_worker (message_fingerprint sample_hashObject (scenario ''b'')) = Some 0
   \<and> emitted one_worker (after_terminate sample_hashObject (scenario ''b'') one_worker) =
        [PostMessage WorkerTrace (Some ''Received the message port and configuration''),
         PostMessage WorkerTrace (Some ''Terminating worker process''), Kill 0, Close]
   \<and> isDisposed (controllers (after_terminate sample_hashObject (scenario ''b'') one_worker) 0)
   \<and> mapConfigurationToProcess (after_terminate sample_hashObject (scenario ''b'') one_worker) 20 = None
   \<and> emitted (after_terminate sample_hashObject (scenario ''b'') one_worker)
        (run sample_hashObject (\<lambda>_. False) create [handoff ''a'', handoff ''b'']) =
        [PostMessage WorkerTrace (Some ''Forking worker process''),
         Fork ''/out/bootstrap-fork.js'' [''--type=t1''] ''m1'' 1,
         PostMessage WorkerTrace (Some ''Worker is ready''),
         PostMessage WorkerReady None]
   \<and> mapConfigurationToProcess (run sample_hashObject (\<lambda>_. False) create [handoff ''a'', handoff ''b'']) 20 = Some 1
   \<and> live (run sample_hashObject (\<lambda>_. False) create [handoff ''a'', handoff ''b'']) 1
   \<and> \<not> live (run sample_hashObject (\<lambda>_. False) create [handoff ''a'', handoff ''b'']) 0"
proof -
  have two: "run sample_hashObject (\<lambda>_. False) create [handoff ''a'', handoff ''b'']
      = step sample_hashObject (\<lambda>_. False) one_worker
          (Inbound ReceivePort (scenario ''b'') (Some sample_environment) (MessagePort 7 # []) ForkReturns)"
    by (simp only: run.simps one_worker_def handoff_def)
  have sc: "type (process_of (scenario ''b'')) = ''t1''" "moduleId (process_of (scenario ''b'')) = ''m1''"
    by (simp_all add: scenario_def)
  note inst = one_live_controller_per_fingerprint
      [of sample_hashObject "\<lambda>_. False" "[handoff ''a'']" "scenario ''b''" sample_environment 7 "[]",
       unfolded Let_def run_one_worker]
  show ?thesis
    using inst [THEN conjunct2, THEN conjunct2]
    unfolding two
    by (elim conjE)
       (simp add: scenario_fingerprint one_worker_map one_worker_counters one_worker_controller
          sample_environment_def sc del: step.simps)
qed

end
